theory Spec2Isabelle
  imports Complex_Main "HOL-Library.AList"
begin

section \<open>JavaScript values\<close>

text \<open>
  A JavaScript string is a sequence of UTF-16 code units; a byte buffer is a list of
  8-bit characters. \<open>js\<close> turns an ASCII literal into the JavaScript string of the same
  characters.
\<close>

type_synonym jsstring = "nat list"
type_synonym bytes = "char list"

definition js :: "string \<Rightarrow> jsstring" where
  "js s = map of_char s"

text \<open>
  The values \<open>JSON.parse\<close> produces. Numbers are the finite ones, as rationals (every
  finite double is one); an object is its list of properties in insertion order. The
  JavaScript value \<open>undefined\<close> is \<open>None\<close> of \<open>json option\<close>.
\<close>

datatype json =
    JNull
  | JBool bool
  | JNum rat
  | JStr jsstring
  | JArr "json list"
  | JObj "(jsstring \<times> json) list"

type_synonym jsval = "json option"

datatype js_error = TypeError jsstring | Error jsstring

text \<open>Truthiness: \<open>undefined\<close>, \<open>null\<close>, \<open>false\<close>, \<open>0\<close> and \<open>''\<close> are falsy.\<close>

fun truthy :: "jsval \<Rightarrow> bool" where
  "truthy None = False"
| "truthy (Some JNull) = False"
| "truthy (Some (JBool b)) = b"
| "truthy (Some (JNum n)) = (n \<noteq> 0)"
| "truthy (Some (JStr s)) = (s \<noteq> [])"
| "truthy (Some (JArr xs)) = True"
| "truthy (Some (JObj ps)) = True"

text \<open>\<open>a || b\<close> and \<open>a ?? b\<close>.\<close>

definition js_or :: "jsval \<Rightarrow> jsval \<Rightarrow> jsval" where
  "js_or a b = (if truthy a then a else b)"

definition nullish :: "jsval \<Rightarrow> bool" where
  "nullish a = (a = None \<or> a = Some JNull)"

definition js_coalesce :: "jsval \<Rightarrow> jsval \<Rightarrow> jsval" where
  "js_coalesce a b = (if nullish a then b else a)"

text \<open>
  Reading a property. On an object it is the own property of that name; none of the
  property names the program reads exists on the prototype of a string, number, boolean
  or array, so on those the result is \<open>undefined\<close>. On \<open>null\<close> and \<open>undefined\<close> the
  read throws a TypeError; \<open>a?.k\<close> gives \<open>undefined\<close> there instead.
\<close>

fun ownprop :: "json \<Rightarrow> jsstring \<Rightarrow> jsval" where
  "ownprop (JObj ps) k = map_of ps k"
| "ownprop _ k = None"

definition getp :: "jsval \<Rightarrow> jsstring \<Rightarrow> js_error + jsval" where
  "getp a k = (case a of
       None \<Rightarrow> Inl (TypeError (js ''Cannot read properties of undefined''))
     | Some JNull \<Rightarrow> Inl (TypeError (js ''Cannot read properties of null''))
     | Some v \<Rightarrow> Inr (ownprop v k))"

definition getp_opt :: "jsval \<Rightarrow> jsstring \<Rightarrow> jsval" where
  "getp_opt a k = (case a of None \<Rightarrow> None | Some JNull \<Rightarrow> None | Some v \<Rightarrow> ownprop v k)"

definition bindE :: "'e + 'a \<Rightarrow> ('a \<Rightarrow> 'e + 'b) \<Rightarrow> 'e + 'b" where
  "bindE m f = (case m of Inl e \<Rightarrow> Inl e | Inr a \<Rightarrow> f a)"

text \<open>\<open>String.prototype.trim\<close>: white space and line terminators of ECMAScript.\<close>

definition isWhiteSpace :: "nat \<Rightarrow> bool" where
  "isWhiteSpace c = (c \<in> {0x09, 0x0A, 0x0B, 0x0C, 0x0D, 0x20, 0xA0, 0x1680, 0x2028, 0x2029,
      0x202F, 0x205F, 0x3000, 0xFEFF} \<or> (0x2000 \<le> c \<and> c \<le> 0x200A))"

definition trim :: "jsstring \<Rightarrow> jsstring" where
  "trim s = rev (dropWhile isWhiteSpace (rev (dropWhile isWhiteSpace s)))"

definition startsWith :: "jsstring \<Rightarrow> jsstring \<Rightarrow> bool" where
  "startsWith s p = (take (length p) s = p)"

text \<open>
  What the program takes from the JavaScript engine: \<open>JSON.parse\<close> (\<open>None\<close> when it
  throws), \<open>JSON.stringify\<close> and the conversion of a number to a string. They are
  parameters of the model; every theorem holds whatever they compute.
\<close>

record host =
  JSON_parse :: "jsstring \<Rightarrow> json option"
  JSON_stringify :: "json \<Rightarrow> jsstring"
  Number_toString :: "rat \<Rightarrow> jsstring"

text \<open>
  \<open>ToString\<close> of a value: an array is its elements joined by commas, \<open>null\<close> elements
  as the empty string; an object is \<open>[object Object]\<close>.
\<close>

fun toStr :: "host \<Rightarrow> json \<Rightarrow> jsstring"
  and joinElems :: "host \<Rightarrow> json list \<Rightarrow> jsstring" where
  "toStr h JNull = js ''null''"
| "toStr h (JBool b) = (if b then js ''true'' else js ''false'')"
| "toStr h (JNum r) = Number_toString h r"
| "toStr h (JStr s) = s"
| "toStr h (JArr xs) = joinElems h xs"
| "toStr h (JObj ps) = js ''[object Object]''"
| "joinElems h [] = []"
| "joinElems h [x] = (if x = JNull then [] else toStr h x)"
| "joinElems h (x # y # ys) = (if x = JNull then [] else toStr h x) @ js '','' @ joinElems h (y # ys)"

text \<open>The decimal digits of a natural number, as a template literal prints an integer.\<close>

function decimal :: "nat \<Rightarrow> jsstring" where
  "decimal n = (if n < 10 then [48 + n] else decimal (n div 10) @ [48 + n mod 10])"
  by pat_completeness auto
termination
  by (relation "measure id") auto

declare decimal.simps [simp del]

text \<open>
  The own enumerable properties that \<open>{...v}\<close> copies: those of an object, the indexed
  elements of an array or string, none of any other value.
\<close>

definition spread :: "json \<Rightarrow> (jsstring \<times> json) list" where
  "spread v = (case v of
       JObj ps \<Rightarrow> ps
     | JArr xs \<Rightarrow> map (\<lambda>i. (decimal i, xs ! i)) [0..<length xs]
     | JStr s \<Rightarrow> map (\<lambda>i. (decimal i, JStr [s ! i])) [0..<length s]
     | _ \<Rightarrow> [])"

text \<open>
  \<open>Buffer.prototype.toString()\<close>: the bytes decoded as UTF-8 into UTF-16 code units.
  Every maximal ill-formed part of the input, a truncated sequence at the end of the
  buffer included, becomes one U+FFFD.
\<close>

definition isContinuation :: "nat \<Rightarrow> bool" where
  "isContinuation b = (0x80 \<le> b \<and> b \<le> 0xBF)"

fun utf8_decode :: "nat list \<Rightarrow> nat list" where
  "utf8_decode [] = []"
| "utf8_decode (b # bs) =
     (if b < 0x80 then b # utf8_decode bs
      else if 0xC2 \<le> b \<and> b \<le> 0xDF then
        (case bs of
           [] \<Rightarrow> [0xFFFD]
         | c # r1 \<Rightarrow>
             if isContinuation c then ((b - 0xC0) * 64 + (c - 0x80)) # utf8_decode r1
             else 0xFFFD # utf8_decode bs)
      else if 0xE0 \<le> b \<and> b \<le> 0xEF then
        (case bs of
           [] \<Rightarrow> [0xFFFD]
         | c # r1 \<Rightarrow>
             if (if b = 0xE0 then 0xA0 else 0x80) \<le> c \<and> c \<le> (if b = 0xED then 0x9F else 0xBF) then
               (case r1 of
                  [] \<Rightarrow> [0xFFFD]
                | d # r2 \<Rightarrow>
                    if isContinuation d
                    then ((b - 0xE0) * 4096 + (c - 0x80) * 64 + (d - 0x80)) # utf8_decode r2
                    else 0xFFFD # utf8_decode r1)
             else 0xFFFD # utf8_decode bs)
      else if 0xF0 \<le> b \<and> b \<le> 0xF4 then
        (case bs of
           [] \<Rightarrow> [0xFFFD]
         | c # r1 \<Rightarrow>
             if (if b = 0xF0 then 0x90 else 0x80) \<le> c \<and> c \<le> (if b = 0xF4 then 0x8F else 0xBF) then
               (case r1 of
                  [] \<Rightarrow> [0xFFFD]
                | d # r2 \<Rightarrow>
                    if isContinuation d then
                      (case r2 of
                         [] \<Rightarrow> [0xFFFD]
                       | e # r3 \<Rightarrow>
                           if isContinuation e
                           then ((b - 0xF0) * 262144 + (c - 0x80) * 4096 + (d - 0x80) * 64 + (e - 0x80))
                                  # utf8_decode r3
                           else 0xFFFD # utf8_decode r2)
                    else 0xFFFD # utf8_decode r1)
             else 0xFFFD # utf8_decode bs)
      else 0xFFFD # utf8_decode bs)"

definition utf16_encode :: "nat \<Rightarrow> jsstring" where
  "utf16_encode cp = (if cp < 0x10000 then [cp]
     else [0xD800 + (cp - 0x10000) div 1024, 0xDC00 + (cp - 0x10000) mod 1024])"

definition toString :: "bytes \<Rightarrow> jsstring" where
  "toString chunk = concat (map utf16_encode (utf8_decode (map of_char chunk)))"

section \<open>auth.js: the credential pool\<close>

datatype auth_source = Env | File | Factory_key | Client

record auth_state =
  currentApiKey :: "jsstring option"
  currentRefreshToken :: "jsstring option"
  lastRefreshTime :: "int option"
  clientId :: "jsstring option"
  authSource :: "auth_source option"
  authFilePath :: "jsstring option"
  factoryApiKeys :: "jsstring list"
  currentKeyIndex :: nat
  startingKeyIndex :: nat
  hasCompletedFullCycle :: bool

text \<open>The values the module's variables are declared with.\<close>

definition initial_auth :: auth_state where
  "initial_auth = \<lparr> currentApiKey = None, currentRefreshToken = None, lastRefreshTime = None,
     clientId = None, authSource = None, authFilePath = None, factoryApiKeys = [],
     currentKeyIndex = 0, startingKeyIndex = 0, hasCompletedFullCycle = False \<rparr>"

text \<open>
  What \<open>loadAuthConfig\<close> reads from the process: the environment variables, the working
  directory's and the home directory's \<open>auth.json\<close> paths, and the home file itself
  (\<open>None\<close> when it does not exist, \<open>Inl\<close> when reading or parsing it throws).
\<close>

record process_env =
  env :: "jsstring \<Rightarrow> jsstring option"
  cwdAuthPath :: jsstring
  factoryAuthPath :: jsstring
  factoryAuthFile :: "(js_error + json) option"

datatype auth_config = FactoryKeyConfig "jsstring list" | RefreshConfig jsstring | ClientConfig

definition keyEnvNames :: "jsstring list" where
  "keyEnvNames = [js ''FACTORY_API_KEY'', js ''FACTORY_API_KEY_2'', js ''FACTORY_API_KEY_3'',
     js ''FACTORY_API_KEY_4'', js ''FACTORY_API_KEY_5'', js ''FACTORY_API_KEY_6'',
     js ''FACTORY_API_KEY_7'']"

text \<open>The loop over \<open>keyEnvNames\<close>: each non-blank value is trimmed and pushed.\<close>

fun pushKeys :: "(jsstring \<Rightarrow> jsstring option) \<Rightarrow> jsstring list \<Rightarrow> jsstring list \<Rightarrow> jsstring list" where
  "pushKeys e [] keys = keys"
| "pushKeys e (envName # names) keys =
     (case e envName of
        None \<Rightarrow> pushKeys e names keys
      | Some keyValue \<Rightarrow>
          if keyValue \<noteq> [] \<and> trim keyValue \<noteq> [] then pushKeys e names (keys @ [trim keyValue])
          else pushKeys e names keys)"

text \<open>
  Step 3 of \<open>loadAuthConfig\<close>, the body of its \<open>try\<close>: \<open>Inl\<close> is a throw (caught by
  the caller, which logs and goes on to step 4), \<open>Inr (Some r)\<close> the early return,
  \<open>Inr None\<close> falling through. The state comes back in every case: the assignments
  before a throw stay.
\<close>

definition stringMethod :: "jsval \<Rightarrow> js_error + jsstring" where
  "stringMethod v = (case v of Some (JStr s) \<Rightarrow> Inr s
     | _ \<Rightarrow> Inl (TypeError (js ''is not a function'')))"

definition loadFactoryAuthFile :: "process_env \<Rightarrow> auth_state \<Rightarrow> (js_error + auth_config option) \<times> auth_state" where
  "loadFactoryAuthFile E s =
     (case factoryAuthFile E of
        None \<Rightarrow> (Inr None, s)
      | Some (Inl e) \<Rightarrow> (Inl e, s)
      | Some (Inr authData) \<Rightarrow>
          (case getp (Some authData) (js ''refresh_token'') of
             Inl e \<Rightarrow> (Inl e, s)
           | Inr refresh_token \<Rightarrow>
               if \<not> truthy refresh_token then (Inr None, s)
               else (case stringMethod refresh_token of
                  Inl e \<Rightarrow> (Inl e, s)
                | Inr rt \<Rightarrow>
                    if trim rt = [] then (Inr None, s)
                    else
                      let s1 = s\<lparr> authSource := Some File, authFilePath := Some (factoryAuthPath E) \<rparr>;
                          access_token = ownprop authData (js ''access_token'')
                      in if truthy access_token
                         then (case stringMethod access_token of
                                 Inl e \<Rightarrow> (Inl e, s1)
                               | Inr atok \<Rightarrow> (Inr (Some (RefreshConfig (trim rt))),
                                            s1\<lparr> currentApiKey := Some (trim atok) \<rparr>))
                         else (Inr (Some (RefreshConfig (trim rt))), s1))))"

definition loadAuthConfig :: "process_env \<Rightarrow> auth_state \<Rightarrow> auth_config \<times> auth_state" where
  "loadAuthConfig E s =
     (let s1 = s\<lparr> factoryApiKeys := pushKeys (env E) keyEnvNames (factoryApiKeys s) \<rparr>
      in if length (factoryApiKeys s1) > 0
         then (FactoryKeyConfig (factoryApiKeys s1),
               s1\<lparr> authSource := Some Factory_key, currentKeyIndex := 0 \<rparr>)
         else
           let envRefreshKey = env E (js ''DROID_REFRESH_KEY'')
           in if envRefreshKey \<noteq> None \<and> the envRefreshKey \<noteq> [] \<and> trim (the envRefreshKey) \<noteq> []
              then (RefreshConfig (trim (the envRefreshKey)),
                    s1\<lparr> authSource := Some Env, authFilePath := Some (cwdAuthPath E) \<rparr>)
              else (case loadFactoryAuthFile E s1 of
                      (Inr (Some r), s2) \<Rightarrow> (r, s2)
                    | (_, s2) \<Rightarrow> (ClientConfig, s2\<lparr> authSource := Some Client \<rparr>)))"

text \<open>
  \<open>refreshApiKey\<close>. The call to the token endpoint is the parameter \<open>net\<close>: \<open>Inl\<close> when
  the request fails or is refused, else the access and refresh tokens of the reply.
  Saving the tokens to the file changes none of the module's variables.
\<close>

definition refreshApiKey :: "(js_error + jsstring \<times> jsstring) \<Rightarrow> int \<Rightarrow> auth_state \<Rightarrow> (js_error + jsstring) \<times> auth_state" where
  "refreshApiKey net now s =
     (if currentRefreshToken s = None \<or> currentRefreshToken s = Some []
      then (Inl (Error (js ''No refresh token available'')), s)
      else
        let s1 = (if clientId s = None \<or> clientId s = Some []
                  then s\<lparr> clientId := Some (js ''client_01HNM792M5G5G1A2THWPXKFMXB'') \<rparr> else s)
        in case net of
             Inl e \<Rightarrow> (Inl e, s1)
           | Inr (access_token, refresh_token) \<Rightarrow>
               (Inr access_token,
                s1\<lparr> currentApiKey := Some access_token, currentRefreshToken := Some refresh_token,
                    lastRefreshTime := Some now \<rparr>))"

definition shouldRefresh :: "int \<Rightarrow> auth_state \<Rightarrow> bool" where
  "shouldRefresh now s =
     (case lastRefreshTime s of
        None \<Rightarrow> True
      | Some t \<Rightarrow> if t = 0 then True else now - t \<ge> 6 * (1000 * 60 * 60))"

definition getApiKey :: "(js_error + jsstring \<times> jsstring) \<Rightarrow> int \<Rightarrow> jsstring option \<Rightarrow> auth_state \<Rightarrow> (js_error + jsstring) \<times> auth_state" where
  "getApiKey net now clientAuthorization s =
     (if authSource s = Some Factory_key \<and> length (factoryApiKeys s) > 0
      then (if currentKeyIndex s < length (factoryApiKeys s)
            then (Inr (js ''Bearer '' @ factoryApiKeys s ! currentKeyIndex s), s)
            else (Inl (TypeError (js ''Cannot read properties of undefined (reading substring)'')), s))
      else if authSource s = Some Env \<or> authSource s = Some File
      then (case (if shouldRefresh now s then refreshApiKey net now s else (Inr [], s)) of
              (Inl e, s1) \<Rightarrow> (Inl e, s1)
            | (Inr _, s1) \<Rightarrow>
                if currentApiKey s1 = None \<or> currentApiKey s1 = Some []
                then (Inl (Error (js ''No API key available from refresh token mechanism.'')), s1)
                else (Inr (js ''Bearer '' @ the (currentApiKey s1)), s1))
      else if clientAuthorization \<noteq> None \<and> clientAuthorization \<noteq> Some []
      then (Inr (the clientAuthorization), s)
      else (Inl (Error (js ''No authorization available. Please configure FACTORY_API_KEY, refresh token, or provide client authorization.'')), s))"

definition rotateFactoryApiKey :: "auth_state \<Rightarrow> bool \<times> auth_state" where
  "rotateFactoryApiKey s =
     (if authSource s \<noteq> Some Factory_key \<or> length (factoryApiKeys s) \<le> 1 then (False, s)
      else
        let nextIndex = (currentKeyIndex s + 1) mod length (factoryApiKeys s)
        in if nextIndex = startingKeyIndex s
           then (False, s\<lparr> hasCompletedFullCycle := True \<rparr>)
           else (True, s\<lparr> currentKeyIndex := nextIndex \<rparr>))"

definition hasMoreFactoryKeys :: "auth_state \<Rightarrow> bool" where
  "hasMoreFactoryKeys s =
     (if authSource s \<noteq> Some Factory_key \<or> length (factoryApiKeys s) \<le> 1 then False
      else \<not> hasCompletedFullCycle s)"

definition startNewRotationCycle :: "auth_state \<Rightarrow> auth_state" where
  "startNewRotationCycle s = s\<lparr> startingKeyIndex := currentKeyIndex s, hasCompletedFullCycle := False \<rparr>"

text \<open>
  \<open>getCurrentKeyInfo\<close>: the one-based index, the pool size and the preview of the
  key, or \<open>null\<close>. Like \<open>getApiKey\<close> it reads \<open>factoryApiKeys[currentKeyIndex]\<close>
  and calls \<open>substring\<close> on it, which throws when the index is beyond the pool.
\<close>

definition getCurrentKeyInfo :: "auth_state \<Rightarrow> js_error + (nat \<times> nat \<times> jsstring) option" where
  "getCurrentKeyInfo s =
     (if authSource s = Some Factory_key \<and> length (factoryApiKeys s) > 0
      then (if currentKeyIndex s < length (factoryApiKeys s)
            then Inr (Some (currentKeyIndex s + 1, length (factoryApiKeys s),
                            take 10 (factoryApiKeys s ! currentKeyIndex s) @ js ''...''))
            else Inl (TypeError (js ''Cannot read properties of undefined (reading substring)'')))
      else Inr None)"

text \<open>
  The states of the pool while the process runs: the module's variables after
  \<open>loadAuthConfig\<close> at start-up, then any sequence of the exported operations.
\<close>

inductive reachable :: "process_env \<Rightarrow> auth_state \<Rightarrow> bool" for E :: process_env where
  loaded: "reachable E (snd (loadAuthConfig E initial_auth))"
| rotated: "reachable E s \<Longrightarrow> reachable E (snd (rotateFactoryApiKey s))"
| cycle: "reachable E s \<Longrightarrow> reachable E (startNewRotationCycle s)"
| got: "reachable E s \<Longrightarrow> reachable E (snd (getApiKey net now c s))"

text \<open>
  Modelled from the spec: \<open>didRotationOccur\<close>, which the routes module imports from
  \<open>auth.js\<close> and the file does not define. The spec's dispatcher reports a
  fallback-success event "on success after at least one rotation" of the cycle that the
  dispatch began: within a cycle a rotation never returns to the cycle's starting index, so
  a rotation has occurred exactly when the current index differs from it.
\<close>

definition didRotationOccur :: "auth_state \<Rightarrow> bool" where
  "didRotationOccur s = (currentKeyIndex s \<noteq> startingKeyIndex s)"

section \<open>routes.js: the dispatcher\<close>

definition isQuotaOrAuthError :: "nat \<Rightarrow> bool" where
  "isQuotaOrAuthError statusCode =
     (statusCode = 429 \<or> statusCode = 401 \<or> statusCode = 403 \<or> statusCode = 402)"

text \<open>
  A response of \<open>fetch\<close>: its status, the bytes of its body and whether the body has
  been read. \<open>clone\<close> gives a second response over the same body; reading the text of one
  marks that one only.
\<close>

record response =
  status :: nat
  body :: bytes
  bodyUsed :: bool

definition clone :: "response \<Rightarrow> response" where
  "clone r = r"

text \<open>
  \<open>await responseClone.text()\<close> while the original stays unread. The two responses
  are fed from one source, which stops when the unread one's buffer is full: the read
  completes for a body shorter than \<open>cloneBuffer\<close>, a size that the runtime fixes and the
  model takes as a parameter, and never completes (\<open>None\<close>) for a longer one.
\<close>

definition cloneText :: "nat \<Rightarrow> response \<Rightarrow> (jsstring \<times> response) option" where
  "cloneText cloneBuffer r =
     (if length (body r) < cloneBuffer then Some (toString (body r), r\<lparr> bodyUsed := True \<rparr>)
      else None)"

record fetch_options =
  http_method :: jsstring
  headers :: "(jsstring \<times> jsstring) list"
  payload :: jsstring

text \<open>
  The upstream: what the \<open>n\<close>-th \<open>fetch\<close> of a dispatch answers to the request it is
  sent, a status and a body, or \<open>Inl\<close> for a network-level failure.
\<close>

type_synonym upstream = "nat \<Rightarrow> fetch_options \<Rightarrow> js_error + nat \<times> bytes"

definition fetch :: "upstream \<Rightarrow> nat \<Rightarrow> fetch_options \<Rightarrow> js_error + response" where
  "fetch up n fo = (case up n fo of Inl e \<Rightarrow> Inl e
     | Inr (st, b) \<Rightarrow> Inr \<lparr> status = st, body = b, bodyUsed = False \<rparr>)"

text \<open>The lines \<open>fetchWithFallback\<close> writes to the console and the log.\<close>

datatype log_event =
    LogAttempt nat nat nat
  | LogKeyFailure jsstring nat jsstring nat
  | LogRetrying jsstring
  | LogExhausted jsstring
  | LogFallbackSuccess jsstring nat nat nat
  | LogNetworkError nat js_error

definition maxAttempts :: nat where
  "maxAttempts = 10"

text \<open>
  The pool is the module's variables, shared by every dispatch in flight, and
  \<open>fetchWithFallback\<close> gives up control at each \<open>await\<close>. A call of it is therefore a
  task that runs one stretch at a time, each stretch from one \<open>await\<close> to the next on
  the pool as it then is: before the call; waiting for \<open>fetch\<close>; waiting for the text of
  the clone of a quota or auth answer; waiting for \<open>getApiKey\<close>, whose body has run;
  returned; thrown. Its own variables are \<open>attempt\<close> and the \<open>fetchOptions\<close> object;
  \<open>sent\<close> are the requests it has sent, \<open>logged\<close> its log lines, \<open>answers\<close> its
  upstream.
\<close>

datatype phase =
    Ready
  | AwaitingFetch
  | AwaitingText response
  | AwaitingKey "js_error + jsstring"
  | Returned response
  | Threw js_error

record task =
  phase :: phase
  attempt :: nat
  options :: fetch_options
  sent :: "fetch_options list"
  logged :: "log_event list"
  endpointName :: jsstring
  answers :: upstream

text \<open>The call \<open>fetchWithFallback(url, fetchOptions, endpointName)\<close>, not yet run.\<close>

definition fetchWithFallback :: "upstream \<Rightarrow> fetch_options \<Rightarrow> jsstring \<Rightarrow> task" where
  "fetchWithFallback up fetchOptions name =
     \<lparr> phase = Ready, attempt = 1, options = fetchOptions, sent = [], logged = [],
       endpointName = name, answers = up \<rparr>"

text \<open>
  The head of the \<open>while\<close> loop up to the call of \<open>fetch\<close>, which sends the request
  with the headers the object has at that moment. Whatever the \<open>try\<close> block throws is
  logged and thrown again.
\<close>

definition loopTop :: "auth_state \<Rightarrow> task \<Rightarrow> task" where
  "loopTop s t =
     (if attempt t \<le> maxAttempts then
        (case getCurrentKeyInfo s of
           Inl e \<Rightarrow> t\<lparr> phase := Threw e, logged := logged t @ [LogNetworkError (attempt t) e] \<rparr>
         | Inr keyInfo \<Rightarrow>
             t\<lparr> phase := AwaitingFetch, sent := sent t @ [options t],
                logged := (case keyInfo of
                             Some (i, nkeys, preview) \<Rightarrow> logged t @ [LogAttempt (attempt t) i nkeys]
                           | None \<Rightarrow> logged t) \<rparr>)
      else t\<lparr> phase := Threw (Error (js ''Request failed after all attempts'')) \<rparr>)"

text \<open>One stretch of a task on the shared pool: the pool and the task afterwards.\<close>

definition fetchStep ::
  "(js_error + jsstring \<times> jsstring) \<Rightarrow> int \<Rightarrow> nat \<Rightarrow> auth_state \<Rightarrow> task \<Rightarrow> auth_state \<times> task" where
  "fetchStep net now cloneBuffer s t =
     (case phase t of
        Ready \<Rightarrow> (let s1 = startNewRotationCycle s in (s1, loopTop s1 t))
      | AwaitingFetch \<Rightarrow>
          (case fetch (answers t) (length (sent t) - 1) (options t) of
             Inl e \<Rightarrow> (s, t\<lparr> phase := Threw e, logged := logged t @ [LogNetworkError (attempt t) e] \<rparr>)
           | Inr response \<Rightarrow>
               if isQuotaOrAuthError (status response) then (s, t\<lparr> phase := AwaitingText response \<rparr>)
               else if didRotationOccur s
               then (case getCurrentKeyInfo s of
                       Inl e \<Rightarrow> (s, t\<lparr> phase := Threw e,
                                       logged := logged t @ [LogNetworkError (attempt t) e] \<rparr>)
                     | Inr keyInfo2 \<Rightarrow>
                         (s, t\<lparr> phase := Returned response,
                                logged := (case keyInfo2 of
                                    Some (i, nkeys, preview) \<Rightarrow>
                                      logged t @ [LogFallbackSuccess (endpointName t) i nkeys (status response)]
                                  | None \<Rightarrow> logged t) \<rparr>))
               else (s, t\<lparr> phase := Returned response \<rparr>))
      | AwaitingText response \<Rightarrow>
          (case cloneText cloneBuffer (clone response) of
             None \<Rightarrow> (s, t)
           | Some (errorText, responseClone) \<Rightarrow>
               let lg = logged t @ [LogKeyFailure (endpointName t) (status response)
                                      (take 200 errorText) (attempt t)];
                   exhausted = (\<lambda>s'. (s', t\<lparr> phase := Returned response,
                                              logged := lg @ [LogExhausted (endpointName t)] \<rparr>))
               in if hasMoreFactoryKeys s then
                    (case rotateFactoryApiKey s of
                       (True, s1) \<Rightarrow>
                         (case getApiKey net now None s1 of
                            (r, s2) \<Rightarrow> (s2, t\<lparr> phase := AwaitingKey r, logged := lg \<rparr>))
                     | (False, s1) \<Rightarrow> exhausted s1)
                  else exhausted s)
      | AwaitingKey r \<Rightarrow>
          (case r of
             Inl e \<Rightarrow> (s, t\<lparr> phase := Threw e, logged := logged t @ [LogNetworkError (attempt t) e] \<rparr>)
           | Inr newAuthHeader \<Rightarrow>
               (s, loopTop s (t\<lparr> options := (options t)\<lparr> headers :=
                                     AList.update (js ''authorization'') newAuthHeader (headers (options t)) \<rparr>,
                                  logged := logged t @ [LogRetrying (endpointName t)],
                                  attempt := attempt t + 1 \<rparr>)))
      | Returned r \<Rightarrow> (s, t)
      | Threw e \<Rightarrow> (s, t))"

text \<open>
  The dispatches in flight and the pool they share. A schedule names, stretch by stretch,
  the task that runs next. \<open>alone\<close> is a task that runs \<open>n\<close> stretches with no other task
  in between.
\<close>

fun run :: "(js_error + jsstring \<times> jsstring) \<Rightarrow> int \<Rightarrow> nat \<Rightarrow> nat list \<Rightarrow> auth_state \<times> task list
    \<Rightarrow> auth_state \<times> task list" where
  "run net now cloneBuffer [] w = w"
| "run net now cloneBuffer (i # schedule) (s, ts) =
     (if i < length ts
      then (case fetchStep net now cloneBuffer s (ts ! i) of
              (s1, t1) \<Rightarrow> run net now cloneBuffer schedule (s1, ts[i := t1]))
      else run net now cloneBuffer schedule (s, ts))"

fun alone :: "(js_error + jsstring \<times> jsstring) \<Rightarrow> int \<Rightarrow> nat \<Rightarrow> nat \<Rightarrow> auth_state \<Rightarrow> task
    \<Rightarrow> auth_state \<times> task" where
  "alone net now cloneBuffer 0 s t = (s, t)"
| "alone net now cloneBuffer (Suc n) s t =
     (case fetchStep net now cloneBuffer s t of (s1, t1) \<Rightarrow> alone net now cloneBuffer n s1 t1)"

text \<open>The \<open>authorization\<close> header a request carries.\<close>

definition authorization :: "fetch_options \<Rightarrow> jsstring option" where
  "authorization fo = map_of (headers fo) (js ''authorization'')"

section \<open>routes.js: the direct handlers, up to the dispatch\<close>

text \<open>
  The configuration module is not among the sources; its lookups are the fields
  of \<open>config\<close>: the redirected model id, the type of a model (\<open>None\<close> when the id is
  unknown), the base URL of an endpoint type, the system prompt (a string, empty when none
  is configured), the reasoning level and the provider of a model, and the two header
  builders.
\<close>

record config =
  getRedirectedModelId :: "jsval \<Rightarrow> jsval"
  getModelById :: "jsval \<Rightarrow> jsstring option"
  getEndpointByType :: "jsstring \<Rightarrow> jsstring option"
  getSystemPrompt :: jsstring
  getModelReasoning :: "jsval \<Rightarrow> jsval"
  getModelProvider :: "jsval \<Rightarrow> jsval"
  getOpenAIHeaders :: "jsstring \<Rightarrow> (jsstring \<times> jsstring) list \<Rightarrow> jsval \<Rightarrow> (jsstring \<times> jsstring) list"
  getAnthropicHeaders :: "jsstring \<Rightarrow> (jsstring \<times> jsstring) list \<Rightarrow> bool \<Rightarrow> jsval \<Rightarrow> jsval
     \<Rightarrow> (jsstring \<times> jsstring) list"

text \<open>What a handler does before it dispatches: it answers at once with a status and a
  JSON body, of which \<open>Reply\<close> keeps the \<open>error\<close> field, or it has a request to send
  to a URL.\<close>

datatype handled = Reply nat jsstring | Forward jsstring fetch_options

definition reasoningLevels :: "jsstring list" where
  "reasoningLevels = [js ''low'', js ''medium'', js ''high'']"

definition isReasoningLevel :: "jsval \<Rightarrow> bool" where
  "isReasoningLevel v = (case v of Some (JStr l) \<Rightarrow> l \<in> set reasoningLevels | _ \<Rightarrow> False)"

text \<open>
  \<open>modifiedRequest\<close> of \<open>handleDirectResponses\<close>, step by step: the copy of the body
  with the redirected model id; the system prompt put before the instructions; the floor of
  16 on \<open>max_output_tokens\<close>; the \<open>reasoning\<close> field set from the model's level.
\<close>

definition withModel :: "json \<Rightarrow> json \<Rightarrow> (jsstring \<times> json) list" where
  "withModel modelId request = AList.update (js ''model'') modelId (spread request)"

definition injectInstructions :: "host \<Rightarrow> jsstring \<Rightarrow> (jsstring \<times> json) list \<Rightarrow> (jsstring \<times> json) list" where
  "injectInstructions h systemPrompt m =
     (if systemPrompt \<noteq> [] then
        (case map_of m (js ''instructions'') of
           Some instructions \<Rightarrow>
             if truthy (Some instructions)
             then AList.update (js ''instructions'') (JStr (systemPrompt @ toStr h instructions)) m
             else AList.update (js ''instructions'') (JStr systemPrompt) m
         | None \<Rightarrow> AList.update (js ''instructions'') (JStr systemPrompt) m)
      else m)"

definition enforceMinTokens :: "(jsstring \<times> json) list \<Rightarrow> (jsstring \<times> json) list" where
  "enforceMinTokens m =
     (case map_of m (js ''max_output_tokens'') of
        Some (JNum n) \<Rightarrow> if n < 16 then AList.update (js ''max_output_tokens'') (JNum 16) m else m
      | _ \<Rightarrow> m)"

definition applyReasoning :: "jsval \<Rightarrow> (jsstring \<times> json) list \<Rightarrow> (jsstring \<times> json) list" where
  "applyReasoning reasoningLevel m =
     (if reasoningLevel = Some (JStr (js ''auto'')) then m
      else if truthy reasoningLevel \<and> isReasoningLevel reasoningLevel
      then (case reasoningLevel of
              Some level \<Rightarrow>
                AList.update (js ''reasoning'')
                  (JObj [(js ''effort'', level), (js ''summary'', JStr (js ''auto''))]) m
            | None \<Rightarrow> m)
      else AList.delete (js ''reasoning'') m)"

definition responsesModifiedRequest :: "host \<Rightarrow> config \<Rightarrow> json \<Rightarrow> json \<Rightarrow> (jsstring \<times> json) list" where
  "responsesModifiedRequest h cfg modelId openaiRequest =
     applyReasoning (getModelReasoning cfg (Some modelId))
       (enforceMinTokens
          (injectInstructions h (getSystemPrompt cfg) (withModel modelId openaiRequest)))"

definition budgetTokens :: "jsstring \<Rightarrow> jsval" where
  "budgetTokens level = map_of [(js ''low'', JNum 4096), (js ''medium'', JNum 12288),
     (js ''high'', JNum 24576)] level"

text \<open>\<open>modifiedRequest\<close> of \<open>handleDirectMessages\<close>: the system prompt becomes the first
  block of \<open>system\<close>, and \<open>thinking\<close> is set from the model's level.\<close>

definition injectSystem :: "jsstring \<Rightarrow> (jsstring \<times> json) list \<Rightarrow> (jsstring \<times> json) list" where
  "injectSystem systemPrompt m =
     (let block = JObj [(js ''type'', JStr (js ''text'')), (js ''text'', JStr systemPrompt)]
      in if systemPrompt \<noteq> [] then
           (case map_of m (js ''system'') of
              Some (JArr blocks) \<Rightarrow> AList.update (js ''system'') (JArr (block # blocks)) m
            | _ \<Rightarrow> AList.update (js ''system'') (JArr [block]) m)
         else m)"

definition applyThinking :: "jsval \<Rightarrow> (jsstring \<times> json) list \<Rightarrow> (jsstring \<times> json) list" where
  "applyThinking reasoningLevel m =
     (if reasoningLevel = Some (JStr (js ''auto'')) then m
      else if truthy reasoningLevel \<and> isReasoningLevel reasoningLevel
      then (case reasoningLevel of
              Some (JStr level) \<Rightarrow>
                AList.update (js ''thinking'')
                  (JObj ((js ''type'', JStr (js ''enabled''))
                     # (case budgetTokens level of
                          Some b \<Rightarrow> [(js ''budget_tokens'', b)] | None \<Rightarrow> []))) m
            | _ \<Rightarrow> m)
      else AList.delete (js ''thinking'') m)"

definition messagesModifiedRequest :: "config \<Rightarrow> json \<Rightarrow> json \<Rightarrow> (jsstring \<times> json) list" where
  "messagesModifiedRequest cfg modelId anthropicRequest =
     applyThinking (getModelReasoning cfg (Some modelId))
       (injectSystem (getSystemPrompt cfg) (withModel modelId anthropicRequest))"

text \<open>
  The two handlers from the request to the call of \<open>fetchWithFallback\<close>. \<open>hdrs\<close> are
  the request's headers and \<open>reqBody\<close> its parsed body. Reading \<open>model\<close> off a
  \<open>null\<close> body throws, which the handler's \<open>catch\<close> answers with status 500.
\<close>

definition clientAuthorization :: "(jsstring \<times> jsstring) list \<Rightarrow> jsstring option" where
  "clientAuthorization hdrs =
     (let clientAuthFromXApiKey =
            (case map_of hdrs (js ''x-api-key'') of
               Some k \<Rightarrow> if k \<noteq> [] then Some (js ''Bearer '' @ k) else None
             | None \<Rightarrow> None)
      in case map_of hdrs (js ''authorization'') of
           Some a \<Rightarrow> if a \<noteq> [] then Some a else clientAuthFromXApiKey
         | None \<Rightarrow> clientAuthFromXApiKey)"

definition internalError :: "js_error \<Rightarrow> handled" where
  "internalError e = Reply 500 (js ''Internal server error'')"

definition apiKeyNotAvailable :: handled where
  "apiKeyNotAvailable = Reply 500 (js ''API key not available'')"

definition handleDirectResponses ::
  "host \<Rightarrow> config \<Rightarrow> (js_error + jsstring \<times> jsstring) \<Rightarrow> int \<Rightarrow> (jsstring \<times> jsstring) list \<Rightarrow> json \<Rightarrow>
   auth_state \<Rightarrow> handled \<times> auth_state" where
  "handleDirectResponses h cfg net now hdrs openaiRequest s =
     (case getp (Some openaiRequest) (js ''model'') of
        Inl e \<Rightarrow> (internalError e, s)
      | Inr requested \<Rightarrow>
          let modelId = getRedirectedModelId cfg requested
          in case modelId of
               None \<Rightarrow> (Reply 400 (js ''model is required''), s)
             | Some mid \<Rightarrow>
             if \<not> truthy modelId
             then (Reply 400 (js ''model is required''), s)
             else (case getModelById cfg modelId of
                None \<Rightarrow> (Reply 404 (js ''Model '' @ toStr h mid @ js '' not found''), s)
              | Some type \<Rightarrow>
                  if type \<noteq> js ''openai''
                  then (Reply 400 (js ''Invalid endpoint type''), s)
                  else (case getEndpointByType cfg type of
                     None \<Rightarrow> (Reply 500 (js ''Endpoint type '' @ type @ js '' not found''), s)
                   | Some base_url \<Rightarrow>
                       (case getApiKey net now (clientAuthorization hdrs) s of
                          (Inl e, s1) \<Rightarrow> (apiKeyNotAvailable, s1)
                        | (Inr authHeader, s1) \<Rightarrow>
                            (Forward base_url
                               \<lparr> http_method = js ''POST'',
                                 headers = getOpenAIHeaders cfg authHeader hdrs (getModelProvider cfg modelId),
                                 payload = JSON_stringify h
                                   (JObj (responsesModifiedRequest h cfg mid openaiRequest)) \<rparr>,
                             s1)))))"

definition handleDirectMessages ::
  "host \<Rightarrow> config \<Rightarrow> (js_error + jsstring \<times> jsstring) \<Rightarrow> int \<Rightarrow> (jsstring \<times> jsstring) list \<Rightarrow> json \<Rightarrow>
   auth_state \<Rightarrow> handled \<times> auth_state" where
  "handleDirectMessages h cfg net now hdrs anthropicRequest s =
     (case getp (Some anthropicRequest) (js ''model'') of
        Inl e \<Rightarrow> (internalError e, s)
      | Inr requested \<Rightarrow>
          let modelId = getRedirectedModelId cfg requested
          in case modelId of
               None \<Rightarrow> (Reply 400 (js ''model is required''), s)
             | Some mid \<Rightarrow>
             if \<not> truthy modelId
             then (Reply 400 (js ''model is required''), s)
             else (case getModelById cfg modelId of
                None \<Rightarrow> (Reply 404 (js ''Model '' @ toStr h mid @ js '' not found''), s)
              | Some type \<Rightarrow>
                  if type \<noteq> js ''anthropic''
                  then (Reply 400 (js ''Invalid endpoint type''), s)
                  else (case getEndpointByType cfg type of
                     None \<Rightarrow> (Reply 500 (js ''Endpoint type '' @ type @ js '' not found''), s)
                   | Some base_url \<Rightarrow>
                       (case getApiKey net now (clientAuthorization hdrs) s of
                          (Inl e, s1) \<Rightarrow> (apiKeyNotAvailable, s1)
                        | (Inr authHeader, s1) \<Rightarrow>
                            let isStreaming = (ownprop anthropicRequest (js ''stream'') = Some (JBool True))
                            in (Forward base_url
                               \<lparr> http_method = js ''POST'',
                                 headers = getAnthropicHeaders cfg authHeader hdrs isStreaming modelId
                                             (getModelProvider cfg modelId),
                                 payload = JSON_stringify h
                                   (JObj (messagesModifiedRequest cfg mid anthropicRequest)) \<rparr>,
                             s1)))))"

section \<open>routes.js: the non-streaming normalizer\<close>

text \<open>
  \<open>find\<close> and \<open>filter\<close> with the callback \<open>x => x.type === t\<close>: reading \<open>type\<close> off
  a \<open>null\<close> element throws.
\<close>

fun findByType :: "jsstring \<Rightarrow> json list \<Rightarrow> js_error + json option" where
  "findByType t [] = Inr None"
| "findByType t (x # xs) =
     (case getp (Some x) (js ''type'') of
        Inl e \<Rightarrow> Inl e
      | Inr ty \<Rightarrow> if ty = Some (JStr t) then Inr (Some x) else findByType t xs)"

fun filterByType :: "jsstring \<Rightarrow> json list \<Rightarrow> js_error + json list" where
  "filterByType t [] = Inr []"
| "filterByType t (x # xs) =
     (case getp (Some x) (js ''type'') of
        Inl e \<Rightarrow> Inl e
      | Inr ty \<Rightarrow>
          (case filterByType t xs of
             Inl e \<Rightarrow> Inl e
           | Inr ys \<Rightarrow> Inr (if ty = Some (JStr t) then x # ys else ys)))"

text \<open>\<open>textBlocks.map(c => c.text).join('')\<close>: \<open>undefined\<close> and \<open>null\<close> join as
  the empty string.\<close>

definition joinTexts :: "host \<Rightarrow> json list \<Rightarrow> jsstring" where
  "joinTexts h textBlocks =
     concat (map (\<lambda>c. case ownprop c (js ''text'') of
                          None \<Rightarrow> [] | Some JNull \<Rightarrow> [] | Some v \<Rightarrow> toStr h v) textBlocks)"

definition isObject :: "json \<Rightarrow> bool" where
  "isObject v = (case v of JObj ps \<Rightarrow> True | JArr xs \<Rightarrow> True | JNull \<Rightarrow> True | _ \<Rightarrow> False)"

definition notAFunction :: js_error where
  "notAFunction = TypeError (js ''is not a function'')"

text \<open>
  \<open>convertResponseToChatCompletion\<close>. \<open>clock k\<close> is what the \<open>k\<close>-th reading of
  \<open>Date.now()\<close> in the call returns, in milliseconds: the first reading is for the
  identifier when \<open>resp.id\<close> is falsy, the next for \<open>created\<close> when \<open>resp.created_at\<close>
  is.
\<close>

definition convertResponseToChatCompletion :: "host \<Rightarrow> (nat \<Rightarrow> nat) \<Rightarrow> json \<Rightarrow> js_error + json" where
  "convertResponseToChatCompletion h clock resp =
     (if \<not> truthy (Some resp) \<or> \<not> isObject resp then Inl (Error (js ''Invalid response object''))
      else
        case (case ownprop resp (js ''output'') of
                Some (JArr os) \<Rightarrow> findByType (js ''message'') os
              | out \<Rightarrow> if truthy out then Inl notAFunction else Inr None) of
          Inl e \<Rightarrow> Inl e
        | Inr outputMsg \<Rightarrow>
            (case (case getp_opt outputMsg (js ''content'') of
                     None \<Rightarrow> Inr []
                   | Some JNull \<Rightarrow> Inr []
                   | Some (JArr cs) \<Rightarrow> filterByType (js ''output_text'') cs
                   | Some other \<Rightarrow> Inl notAFunction) of
               Inl e \<Rightarrow> Inl e
             | Inr textBlocks \<Rightarrow>
                 let content = joinTexts h textBlocks;
                     idv = ownprop resp (js ''id'')
                 in case (if truthy idv
                          then (case idv of
                                  Some (JStr i) \<Rightarrow>
                                    Inr (if startsWith i (js ''resp_'')
                                         then js ''chatcmpl-'' @ drop 5 i else i, 0)
                                | _ \<Rightarrow> Inl notAFunction)
                          else Inr (js ''chatcmpl-'' @ decimal (clock 0), 1)) of
                      Inl e \<Rightarrow> Inl e
                    | Inr (ident, readings) \<Rightarrow>
                        Inr (JObj [
                          (js ''id'', JStr ident),
                          (js ''object'', JStr (js ''chat.completion'')),
                          (js ''created'',
                             the (js_or (ownprop resp (js ''created_at''))
                                        (Some (JNum (of_nat (clock readings div 1000)))))),
                          (js ''model'',
                             the (js_or (ownprop resp (js ''model'')) (Some (JStr (js ''unknown-model''))))),
                          (js ''choices'', JArr [JObj [
                             (js ''index'', JNum 0),
                             (js ''message'', JObj [
                                (js ''role'',
                                   the (js_or (getp_opt outputMsg (js ''role''))
                                              (Some (JStr (js ''assistant''))))),
                                (js ''content'', JStr content)]),
                             (js ''finish_reason'',
                                JStr (if ownprop resp (js ''status'') = Some (JStr (js ''completed''))
                                      then js ''stop'' else js ''unknown''))]]),
                          (js ''usage'', JObj [
                             (js ''prompt_tokens'',
                                the (js_coalesce (getp_opt (ownprop resp (js ''usage'')) (js ''input_tokens''))
                                                 (Some (JNum 0)))),
                             (js ''completion_tokens'',
                                the (js_coalesce (getp_opt (ownprop resp (js ''usage'')) (js ''output_tokens''))
                                                 (Some (JNum 0)))),
                             (js ''total_tokens'',
                                the (js_coalesce (getp_opt (ownprop resp (js ''usage'')) (js ''total_tokens''))
                                                 (Some (JNum 0))))])])))"

text \<open>Two clocks, and a vendor response that carries neither an id nor a creation time.\<close>

definition clock_1s :: "nat \<Rightarrow> nat" where
  "clock_1s k = 1000"

definition clock_2s :: "nat \<Rightarrow> nat" where
  "clock_2s k = 2000"

definition bare_response :: json where
  "bare_response = JObj [(js ''status'', JStr (js ''completed'')),
     (js ''output'', JArr [JObj [(js ''type'', JStr (js ''message'')),
        (js ''content'', JArr [JObj [(js ''type'', JStr (js ''output_text'')),
                                     (js ''text'', JStr (js ''hi''))]])]])]"

definition full_response :: json where
  "full_response = JObj [(js ''id'', JStr (js ''resp_7'')), (js ''created_at'', JNum 1700000000),
     (js ''status'', JStr (js ''completed'')),
     (js ''output'', JArr [JObj [(js ''type'', JStr (js ''message'')),
        (js ''content'', JArr [JObj [(js ''type'', JStr (js ''output_text'')),
                                     (js ''text'', JStr (js ''hi''))]])]])]"

section \<open>transformers/response-openai.js: the streaming transformer\<close>

text \<open>\<open>String.prototype.split\<close> on a one-character separator: never an empty list.\<close>

fun js_split :: "nat \<Rightarrow> jsstring \<Rightarrow> jsstring list" where
  "js_split sep [] = [[]]"
| "js_split sep (c # cs) =
     (if c = sep then [] # js_split sep cs
      else (case js_split sep cs of [] \<Rightarrow> [[c]] | l # ls \<Rightarrow> (c # l) # ls))"

text \<open>
  \<open>a || d\<close> where \<open>d\<close> is a value. The tool calls are a \<open>Map\<close>, kept in insertion
  order: a key is found again when it is a primitive value equal to it; an object or an
  array is a key of its own each time it is parsed.
\<close>

definition js_or_else :: "jsval \<Rightarrow> json \<Rightarrow> json" where
  "js_or_else a d = (case a of Some v \<Rightarrow> if truthy a then v else d | None \<Rightarrow> d)"

record tool_call =
  tc_index :: nat
  tc_id :: json
  tc_name :: json
  tc_arguments :: jsstring

definition isPrimitive :: "jsval \<Rightarrow> bool" where
  "isPrimitive k = (case k of Some (JArr xs) \<Rightarrow> False | Some (JObj ps) \<Rightarrow> False | _ \<Rightarrow> True)"

definition map_get :: "(jsval \<times> tool_call) list \<Rightarrow> jsval \<Rightarrow> tool_call option" where
  "map_get m k = (if isPrimitive k then map_of m k else None)"

definition map_set :: "(jsval \<times> tool_call) list \<Rightarrow> jsval \<Rightarrow> tool_call \<Rightarrow> (jsval \<times> tool_call) list" where
  "map_set m k v = (if isPrimitive k then AList.update k v m else m @ [(k, v)])"

record transformer =
  model :: jsstring
  requestId :: jsstring
  created :: nat
  toolCalls :: "(jsval \<times> tool_call) list"
  toolCallIndex :: nat
  isDone :: bool

text \<open>The constructor; \<open>now\<close> is \<open>Date.now()\<close> when it runs.\<close>

definition OpenAIResponseTransformer :: "jsstring \<Rightarrow> jsstring option \<Rightarrow> nat \<Rightarrow> transformer" where
  "OpenAIResponseTransformer modelId reqId now =
     \<lparr> model = modelId,
       requestId = (case reqId of Some r \<Rightarrow> if r \<noteq> [] then r else js ''chatcmpl-'' @ decimal now
                    | None \<Rightarrow> js ''chatcmpl-'' @ decimal now),
       created = now div 1000, toolCalls = [], toolCallIndex = 0, isDone = False \<rparr>"

datatype sse_line = EventLine jsstring | DataLine json

definition parseSSELine :: "host \<Rightarrow> jsstring \<Rightarrow> sse_line option" where
  "parseSSELine h line =
     (if startsWith line (js ''event:'') then Some (EventLine (trim (drop 6 line)))
      else if startsWith line (js ''data:'') then
        (let dataStr = trim (drop 5 line)
         in case JSON_parse h dataStr of
              Some v \<Rightarrow> Some (DataLine v)
            | None \<Rightarrow> Some (DataLine (JStr dataStr)))
      else None)"

text \<open>A frame: \<open>data: \<close>, a serialized chunk and two line feeds.\<close>

definition sse :: "host \<Rightarrow> json \<Rightarrow> jsstring" where
  "sse h chunk = js ''data: '' @ JSON_stringify h chunk @ [10, 10]"

definition createDoneSignal :: jsstring where
  "createDoneSignal = js ''data: [DONE]'' @ [10, 10]"

definition chunkHead :: "transformer \<Rightarrow> (jsstring \<times> json) list" where
  "chunkHead tr = [(js ''id'', JStr (requestId tr)), (js ''object'', JStr (js ''chat.completion.chunk'')),
     (js ''created'', JNum (of_nat (created tr))), (js ''model'', JStr (model tr))]"

definition openAIChunk :: "transformer \<Rightarrow> json \<Rightarrow> jsstring option \<Rightarrow> bool \<Rightarrow> jsstring option \<Rightarrow> json" where
  "openAIChunk tr content role finish finishReason =
     JObj (chunkHead tr @ [(js ''choices'', JArr [JObj [
        (js ''index'', JNum 0),
        (js ''delta'', JObj (
           (case role of Some r \<Rightarrow> if r \<noteq> [] then [(js ''role'', JStr r)] else [] | None \<Rightarrow> [])
           @ (if truthy (Some content) then [(js ''content'', content)] else []))),
        (js ''finish_reason'',
           if finish then (case finishReason of Some f \<Rightarrow> JStr f | None \<Rightarrow> JNull) else JNull)]])])"

definition createOpenAIChunk :: "host \<Rightarrow> transformer \<Rightarrow> json \<Rightarrow> jsstring option \<Rightarrow> bool \<Rightarrow> jsstring option \<Rightarrow> jsstring" where
  "createOpenAIChunk h tr content role finish finishReason =
     sse h (openAIChunk tr content role finish finishReason)"

definition toolCallChunk :: "transformer \<Rightarrow> nat \<Rightarrow> json \<Rightarrow> json \<Rightarrow> json \<Rightarrow> bool \<Rightarrow> json" where
  "toolCallChunk tr index toolCallId functionName argumentsDelta isFirst =
     JObj (chunkHead tr @ [(js ''choices'', JArr [JObj [
        (js ''index'', JNum 0),
        (js ''delta'', JObj [(js ''tool_calls'', JArr [JObj (
           (js ''index'', JNum (of_nat index))
           # (if isFirst
              then [(js ''id'', toolCallId), (js ''type'', JStr (js ''function'')),
                    (js ''function'', JObj [(js ''name'', functionName), (js ''arguments'', JStr [])])]
              else [(js ''function'', JObj [(js ''arguments'', argumentsDelta)])]))])]),
        (js ''finish_reason'', JNull)]])])"

definition createToolCallChunk :: "host \<Rightarrow> transformer \<Rightarrow> nat \<Rightarrow> json \<Rightarrow> json \<Rightarrow> json \<Rightarrow> bool \<Rightarrow> jsstring" where
  "createToolCallChunk h tr index toolCallId functionName argumentsDelta isFirst =
     sse h (toolCallChunk tr index toolCallId functionName argumentsDelta isFirst)"

definition completeToolCallChunk :: "transformer \<Rightarrow> nat \<Rightarrow> json \<Rightarrow> json \<Rightarrow> json \<Rightarrow> json" where
  "completeToolCallChunk tr index toolCallId functionName functionArgs =
     JObj (chunkHead tr @ [(js ''system_fingerprint'', JStr (js ''fp_factory'')),
       (js ''choices'', JArr [JObj [
        (js ''index'', JNum 0),
        (js ''delta'', JObj [(js ''role'', JStr (js ''assistant'')),
           (js ''tool_calls'', JArr [JObj [
              (js ''index'', JNum (of_nat index)), (js ''id'', toolCallId),
              (js ''type'', JStr (js ''function'')),
              (js ''function'', JObj [(js ''name'', functionName), (js ''arguments'', functionArgs)])]])]),
        (js ''finish_reason'', JNull)]])])"

definition createCompleteToolCallChunk :: "host \<Rightarrow> transformer \<Rightarrow> nat \<Rightarrow> json \<Rightarrow> json \<Rightarrow> json \<Rightarrow> jsstring" where
  "createCompleteToolCallChunk h tr index toolCallId functionName functionArgs =
     sse h (completeToolCallChunk tr index toolCallId functionName functionArgs)"

definition textDeltaEvents :: "jsstring list" where
  "textDeltaEvents = [js ''response.output_text.delta'', js ''response.text.delta'',
     js ''response.content_part.delta'']"

definition textDoneEvents :: "jsstring list" where
  "textDoneEvents = [js ''response.output_text.done'', js ''response.text.done'',
     js ''response.content_part.done'']"

definition completionEvents :: "jsstring list" where
  "completionEvents = [js ''response.done'', js ''response.completed'']"

text \<open>\<open>item.call_id || item.id || `call_${Date.now()}`\<close>; \<open>clock i\<close> is what
  \<open>Date.now()\<close> returns while the tool call of index \<open>i\<close> is allocated.\<close>

definition toolCallIdOf :: "(nat \<Rightarrow> nat) \<Rightarrow> transformer \<Rightarrow> jsval \<Rightarrow> json" where
  "toolCallIdOf clock tr item =
     js_or_else (js_or (getp_opt item (js ''call_id'')) (getp_opt item (js ''id'')))
       (JStr (js ''call_'' @ decimal (clock (toolCallIndex tr))))"

text \<open>
  \<open>transformEvent\<close>: the frame to emit, if any, and the transformer afterwards; \<open>Inl\<close>
  when reading a field of a \<open>null\<close> payload throws.
\<close>

definition transformEvent ::
  "host \<Rightarrow> (nat \<Rightarrow> nat) \<Rightarrow> transformer \<Rightarrow> jsstring \<Rightarrow> json \<Rightarrow> js_error + jsstring option \<times> transformer" where
  "transformEvent h clock tr eventType eventData =
     (if eventType = js ''response.created''
      then Inr (Some (createOpenAIChunk h tr (JStr []) (Some (js ''assistant'')) False None), tr)
      else if eventType = js ''response.in_progress'' then Inr (None, tr)
      else if eventType \<in> set textDeltaEvents then
        (case getp (Some eventData) (js ''delta'') of
           Inl e \<Rightarrow> Inl e
         | Inr delta \<Rightarrow>
             let text = js_or_else (js_or delta (ownprop eventData (js ''text''))) (JStr [])
             in Inr (Some (createOpenAIChunk h tr text (Some (js ''assistant'')) False None), tr))
      else if eventType \<in> set textDoneEvents then Inr (None, tr)
      else
        case (if eventType = js ''response.content_part.added'' \<or> eventType = js ''response.output_item.added''
              then (case getp (Some eventData) (js ''item'') of
                      Inl e \<Rightarrow> Inl e
                    | Inr it \<Rightarrow>
                        let item = js_or it (ownprop eventData (js ''part''))
                        in Inr (truthy item \<and> getp_opt item (js ''type'') = Some (JStr (js ''output_text''))))
              else Inr False) of
          Inl e \<Rightarrow> Inl e
        | Inr True \<Rightarrow> Inr (None, tr)
        | Inr False \<Rightarrow>
            if eventType = js ''response.output_item.added'' then
              (case getp (Some eventData) (js ''item'') of
                 Inl e \<Rightarrow> Inl e
               | Inr item \<Rightarrow>
                   if truthy item \<and> getp_opt item (js ''type'') = Some (JStr (js ''function_call'')) then
                     let toolCallId = toolCallIdOf clock tr item;
                         index = toolCallIndex tr;
                         name = js_or_else (getp_opt item (js ''name'')) (JStr []);
                         tr1 = tr\<lparr> toolCallIndex := index + 1 \<rparr>;
                         tr2 = tr1\<lparr> toolCalls := map_set (toolCalls tr1) (getp_opt item (js ''id''))
                                  \<lparr> tc_index = index, tc_id = toolCallId, tc_name = name,
                                    tc_arguments = [] \<rparr> \<rparr>
                     in Inr (Some (createToolCallChunk h tr2 index toolCallId name (JStr []) True), tr2)
                   else Inr (None, tr))
            else if eventType = js ''response.function_call_arguments.delta'' then
              (case getp (Some eventData) (js ''item_id'') of
                 Inl e \<Rightarrow> Inl e
               | Inr itemId \<Rightarrow>
                   let delta = js_or_else (ownprop eventData (js ''delta'')) (JStr [])
                   in case map_get (toolCalls tr) itemId of
                        Some toolCall \<Rightarrow>
                          let tr1 = tr\<lparr> toolCalls := map_set (toolCalls tr) itemId
                                     (toolCall\<lparr> tc_arguments := tc_arguments toolCall @ toStr h delta \<rparr>) \<rparr>
                          in Inr (Some (createToolCallChunk h tr1 (tc_index toolCall) (tc_id toolCall)
                                          JNull delta False), tr1)
                      | None \<Rightarrow> Inr (None, tr))
            else if eventType = js ''response.function_call_arguments.done'' then Inr (None, tr)
            else if eventType = js ''response.output_item.done'' then
              (case getp (Some eventData) (js ''item'') of
                 Inl e \<Rightarrow> Inl e
               | Inr item \<Rightarrow>
                   if truthy item \<and> getp_opt item (js ''type'') = Some (JStr (js ''function_call'')) then
                     let toolCallId = toolCallIdOf clock tr item;
                         index = toolCallIndex tr;
                         tr1 = tr\<lparr> toolCallIndex := index + 1 \<rparr>
                     in Inr (Some (createCompleteToolCallChunk h tr1 index toolCallId
                                     (js_or_else (getp_opt item (js ''name'')) (JStr []))
                                     (js_or_else (getp_opt item (js ''arguments'')) (JStr (js ''{}'')))), tr1)
                   else Inr (None, tr))
            else if eventType \<in> set completionEvents then
              (case getp (Some eventData) (js ''response'') of
                 Inl e \<Rightarrow> Inl e
               | Inr response \<Rightarrow>
                   let status = js_or_else (js_or (getp_opt response (js ''status''))
                                                  (ownprop eventData (js ''status'')))
                                  (JStr (js ''completed''));
                       finishReason =
                         (if status = JStr (js ''completed'')
                          then (if length (toolCalls tr) > 0 then js ''tool_calls'' else js ''stop'')
                          else if status = JStr (js ''incomplete'') then js ''length''
                          else js ''stop'');
                       tr1 = tr\<lparr> isDone := True \<rparr>
                   in Inr (Some (createOpenAIChunk h tr1 (JStr []) None True (Some finishReason)
                                 @ createDoneSignal), tr1))
            else Inr (None, tr))"

text \<open>
  The loop over the lines of one chunk. The state is the pending event type and the
  transformer; \<open>out\<close> are the frames yielded so far. A throw ends the loop and keeps what
  was yielded before it.
\<close>

record stream_state =
  currentEvent :: "jsstring option"
  xf :: transformer
  out :: "jsstring list"

definition processLine :: "host \<Rightarrow> (nat \<Rightarrow> nat) \<Rightarrow> stream_state \<Rightarrow> jsstring \<Rightarrow> js_error + stream_state" where
  "processLine h clock st line =
     (if trim line = [] then Inr st
      else case parseSSELine h line of
        None \<Rightarrow> Inr st
      | Some (EventLine v) \<Rightarrow> Inr (st\<lparr> currentEvent := Some v \<rparr>)
      | Some (DataLine d) \<Rightarrow>
          (case currentEvent st of
             None \<Rightarrow> Inr st
           | Some ev \<Rightarrow>
               if ev = [] then Inr st
               else (case transformEvent h clock (xf st) ev d of
                       Inl e \<Rightarrow> Inl e
                     | Inr (transformed, tr) \<Rightarrow>
                         Inr (st\<lparr> currentEvent := None, xf := tr,
                                 out := out st @ (case transformed of Some f \<Rightarrow> [f] | None \<Rightarrow> []) \<rparr>))))"

text \<open>A throw inside the loops carries the state at the throw, for the \<open>catch\<close> block.\<close>

fun processLines :: "host \<Rightarrow> (nat \<Rightarrow> nat) \<Rightarrow> stream_state \<Rightarrow> jsstring list \<Rightarrow> (js_error \<times> stream_state) + stream_state" where
  "processLines h clock st [] = Inr st"
| "processLines h clock st (line # lines) =
     (case processLine h clock st line of
        Inl e \<Rightarrow> Inl (e, st)
      | Inr st1 \<Rightarrow> processLines h clock st1 lines)"

fun processChunks :: "host \<Rightarrow> (nat \<Rightarrow> nat) \<Rightarrow> jsstring \<Rightarrow> stream_state \<Rightarrow> bytes list \<Rightarrow> (js_error \<times> stream_state) + stream_state" where
  "processChunks h clock buffer st [] = Inr st"
| "processChunks h clock buffer st (chunk # chunks) =
     (let lines = js_split 10 (buffer @ toString chunk)
      in case processLines h clock st (butlast lines) of
           Inl x \<Rightarrow> Inl x
         | Inr st1 \<Rightarrow> processChunks h clock (last lines) st1 chunks)"

text \<open>
  \<open>transformStream\<close> on a source that delivers \<open>chunks\<close> and then ends, or then
  fails with \<open>failure\<close>. The result is the frames yielded, the error thrown to the
  consumer if any, and the transformer at the end.
\<close>

record stream_result =
  emitted :: "jsstring list"
  thrown :: "js_error option"
  final :: transformer

definition transformStream ::
  "host \<Rightarrow> (nat \<Rightarrow> nat) \<Rightarrow> transformer \<Rightarrow> bytes list \<Rightarrow> js_error option \<Rightarrow> stream_result" where
  "transformStream h clock tr chunks failure =
     (let st0 = \<lparr> currentEvent = None, xf = tr\<lparr> isDone := False \<rparr>, out = [] \<rparr>;
          caught = (\<lambda>e st. \<lparr> emitted = out st @ (if \<not> isDone (xf st) then [createDoneSignal] else []),
                               thrown = Some e, final = xf st \<rparr>)
      in case processChunks h clock [] st0 chunks of
           Inl (e, st) \<Rightarrow> caught e st
         | Inr st \<Rightarrow>
             (case failure of
                Some e \<Rightarrow> caught e st
              | None \<Rightarrow>
                  \<lparr> emitted = out st @ (if \<not> isDone (xf st)
                       then [createOpenAIChunk h (xf st) (JStr []) None True (Some (js ''stop'')),
                             createDoneSignal]
                       else []),
                    thrown = None, final = xf st \<rparr>))"

text \<open>
  To state what the transformer does with a stream: the complete lines of the decoded
  text, the (event type, payload) pairs that the line loop hands to \<open>transformEvent\<close>
  when no call throws, and the final chunk with finish reason \<open>stop\<close>.
\<close>

definition streamLines :: "jsstring \<Rightarrow> bytes list \<Rightarrow> jsstring list" where
  "streamLines buffer chunks = butlast (js_split 10 (buffer @ concat (map toString chunks)))"


definition stopChunk :: "transformer \<Rightarrow> json" where
  "stopChunk tr = JObj (chunkHead tr @ [(js ''choices'', JArr [JObj [
      (js ''index'', JNum 0), (js ''delta'', JObj []), (js ''finish_reason'', JStr (js ''stop''))]])])"

section \<open>Stand-ins to run the model on examples\<close>

text \<open>
  A serializer for the values of the examples: integers in decimal, strings quoted with
  the quote, the backslash and the line feed escaped, arrays and objects in order. It
  stands for \<open>JSON.stringify\<close> where an example is evaluated, and only there.
\<close>

definition demo_number :: "rat \<Rightarrow> jsstring" where
  "demo_number r = (if r = of_int \<lfloor>r\<rfloor>
     then (if r < 0 then js ''-'' @ decimal (nat (- \<lfloor>r\<rfloor>)) else decimal (nat \<lfloor>r\<rfloor>))
     else js ''NaN'')"

definition demo_quote :: "jsstring \<Rightarrow> jsstring" where
  "demo_quote s = [34] @ concat (map (\<lambda>c. if c = 34 then [92, 34] else if c = 92 then [92, 92]
                                          else if c = 10 then [92, 110] else [c]) s) @ [34]"

fun demo_stringify :: "json \<Rightarrow> jsstring"
  and demo_elems :: "json list \<Rightarrow> jsstring"
  and demo_props :: "(jsstring \<times> json) list \<Rightarrow> jsstring" where
  "demo_stringify JNull = js ''null''"
| "demo_stringify (JBool b) = (if b then js ''true'' else js ''false'')"
| "demo_stringify (JNum r) = demo_number r"
| "demo_stringify (JStr s) = demo_quote s"
| "demo_stringify (JArr xs) = js ''['' @ demo_elems xs @ js '']''"
| "demo_stringify (JObj ps) = js ''{'' @ demo_props ps @ js ''}''"
| "demo_elems [] = []"
| "demo_elems [x] = demo_stringify x"
| "demo_elems (x # y # ys) = demo_stringify x @ js '','' @ demo_elems (y # ys)"
| "demo_props [] = []"
| "demo_props [(k, v)] = demo_quote k @ js '':'' @ demo_stringify v"
| "demo_props ((k, v) # q # qs) = demo_quote k @ js '':'' @ demo_stringify v @ js '','' @ demo_props (q # qs)"

text \<open>The payloads of the examples and what \<open>JSON.parse\<close> makes of them.\<close>

definition demo_payloads :: "(jsstring \<times> json) list" where
  "demo_payloads = [
     (js ''{\"delta\":\"hi\"}'', JObj [(js ''delta'', JStr (js ''hi''))]),
     (js ''null'', JNull)]"

definition demo_host :: host where
  "demo_host = \<lparr> JSON_parse = map_of demo_payloads, JSON_stringify = demo_stringify,
     Number_toString = demo_number \<rparr>"

text \<open>A configuration with an \<open>openai\<close> model and an \<open>anthropic\<close> model at level
  \<open>high\<close>, a second \<open>anthropic\<close> model at level \<open>off\<close>, and header builders that set
  the \<open>authorization\<close> header.\<close>

definition demo_config :: config where
  "demo_config = \<lparr>
     getRedirectedModelId = (\<lambda>m. m),
     getModelById = (\<lambda>m. if m = Some (JStr (js ''gpt'')) then Some (js ''openai'')
                          else if m = Some (JStr (js ''claude'')) \<or> m = Some (JStr (js ''claude-off''))
                          then Some (js ''anthropic'') else None),
     getEndpointByType = (\<lambda>t. Some (js ''https://upstream.example/'' @ t)),
     getSystemPrompt = js ''Be brief. '',
     getModelReasoning = (\<lambda>m. if m = Some (JStr (js ''claude-off'')) then Some (JStr (js ''off''))
                               else Some (JStr (js ''high''))),
     getModelProvider = (\<lambda>m. None),
     getOpenAIHeaders = (\<lambda>a hdrs p. [(js ''authorization'', a)]),
     getAnthropicHeaders = (\<lambda>a hdrs st m p. [(js ''authorization'', a)]) \<rparr>"

definition small_budget_request :: json where
  "small_budget_request = JObj [(js ''model'', JStr (js ''gpt'')), (js ''max_output_tokens'', JNum 5),
     (js ''reasoning'', JObj [(js ''effort'', JStr (js ''low''))])]"

definition thinking_request :: json where
  "thinking_request = JObj [(js ''model'', JStr (js ''claude'')),
     (js ''thinking'', JObj [(js ''type'', JStr (js ''enabled'')), (js ''budget_tokens'', JNum 1024)])]"

text \<open>The invariant of the pool: in \<open>factory_key\<close> mode the index is inside the pool,
  in every other mode the pool is empty.\<close>

definition pool_ok :: "auth_state \<Rightarrow> bool" where
  "pool_ok s = (if authSource s = Some Factory_key
                then currentKeyIndex s < length (factoryApiKeys s)
                else factoryApiKeys s = [])"

text \<open>A two-key environment, the first value padded with a blank, used to run the pool.\<close>

definition demo_env :: process_env where
  "demo_env = \<lparr> env = (\<lambda>n. if n = js ''FACTORY_API_KEY'' then Some (js '' fk-one'')
                          else if n = js ''FACTORY_API_KEY_2'' then Some (js ''fk-two'') else None),
       cwdAuthPath = js ''/srv/auth.json'', factoryAuthPath = js ''/root/.factory/auth.json'',
       factoryAuthFile = None \<rparr>"

definition demo_pool :: auth_state where
  "demo_pool = initial_auth\<lparr> factoryApiKeys := [js ''fk-one'', js ''fk-two''],
     authSource := Some Factory_key \<rparr>"



text \<open>
  Bookkeeping for the dispatcher's properties: the pool \<open>j\<close> rotations into the cycle that
  began at index \<open>c0\<close>, the header value of the key at an index, an upstream whose
  \<open>i\<close>-th answer is a quota or auth failure with a body shorter than \<open>cloneBuffer\<close>
  whatever the request, and the fallback-success lines of a log.
\<close>

definition in_cycle :: "jsstring list \<Rightarrow> nat \<Rightarrow> nat \<Rightarrow> auth_state \<Rightarrow> bool" where
  "in_cycle keys c0 j s = (authSource s = Some Factory_key \<and> factoryApiKeys s = keys
     \<and> 2 \<le> length keys \<and> startingKeyIndex s = c0 \<and> c0 < length keys
     \<and> \<not> hasCompletedFullCycle s \<and> j < length keys
     \<and> currentKeyIndex s = (c0 + j) mod length keys)"

definition bearer :: "jsstring list \<Rightarrow> nat \<Rightarrow> jsstring" where
  "bearer keys i = js ''Bearer '' @ keys ! i"

definition quota_answer :: "nat \<Rightarrow> upstream \<Rightarrow> nat \<Rightarrow> bool" where
  "quota_answer cloneBuffer up i =
     (\<forall>fo. \<exists>st b. up i fo = Inr (st, b) \<and> isQuotaOrAuthError st \<and> length b < cloneBuffer)"

definition fallbackEvents :: "log_event list \<Rightarrow> log_event list" where
  "fallbackEvents lg = filter (\<lambda>e. case e of LogFallbackSuccess n i t st \<Rightarrow> True | _ \<Rightarrow> False) lg"

text \<open>Upstreams to run the dispatcher on: one that always answers 429, one that answers
  429 to the first request and 200 afterwards; a request built with the first key; and a
  pool of three keys.\<close>

definition always_quota :: upstream where
  "always_quota n fo = Inr (429, ''quota exceeded'')"


definition demo_request :: fetch_options where
  "demo_request = \<lparr> http_method = js ''POST'',
     headers = [(js ''authorization'', js ''Bearer fk-one'')], payload = js ''{}'' \<rparr>"

definition demo_env3 :: process_env where
  "demo_env3 = \<lparr> env = (\<lambda>n. if n = js ''FACTORY_API_KEY'' then Some (js ''fk-one'')
                          else if n = js ''FACTORY_API_KEY_2'' then Some (js ''fk-two'')
                          else if n = js ''FACTORY_API_KEY_3'' then Some (js ''fk-three'') else None),
       cwdAuthPath = js ''/srv/auth.json'', factoryAuthPath = js ''/root/.factory/auth.json'',
       factoryAuthFile = None \<rparr>"

definition demo_pool3 :: auth_state where
  "demo_pool3 = initial_auth\<lparr> factoryApiKeys := [js ''fk-one'', js ''fk-two'', js ''fk-three''],
     authSource := Some Factory_key \<rparr>"

text \<open>
  To run the streaming transformer: a clock, a transformer for the model \<open>gpt\<close> with the
  request id \<open>req-1\<close>, the line loop's state before the first line, and two streams of one
  text-delta event each, the second with the payload \<open>null\<close>.
\<close>

definition demo_clock :: "nat \<Rightarrow> nat" where
  "demo_clock i = 1000"

definition demo_transformer :: transformer where
  "demo_transformer = OpenAIResponseTransformer (js ''gpt'') (Some (js ''req-1'')) 1000"




text \<open>
  A text-delta event whose text is the letter e with an acute accent, two bytes in UTF-8,
  cut between the two bytes; and the events of one tool call: the start of the item \<open>X\<close>
  with the function name \<open>lookup\<close>, two argument deltas, then either the end of the
  arguments or the item as a whole. \<open>sse_event\<close> is an event as it is on the wire,
  \<open>stream_payloads\<close> is what \<open>JSON.parse\<close> makes of the payloads, and \<open>lookup_call\<close>
  is the entry of the tool call in the transformer's \<open>Map\<close>.
\<close>

definition accent_head :: bytes where
  "accent_head = ''event: response.output_text.delta'' @ [CHR 0x0A]
     @ ''data: {\"delta\":\"'' @ [CHR 0xC3]"

definition accent_tail :: bytes where
  "accent_tail = [CHR 0xA9] @ ''\"}'' @ [CHR 0x0A]"

definition added_payload :: string where
  "added_payload = ''{\"item\":{\"id\":\"X\",\"type\":\"function_call\",\"name\":\"lookup\"}}''"

definition delta1_payload :: string where
  "delta1_payload = ''{\"item_id\":\"X\",\"delta\":\"{'' @ [CHR 0x5C] @ ''\"q'' @ [CHR 0x5C] @ ''\":\"}''"

definition delta2_payload :: string where
  "delta2_payload = ''{\"item_id\":\"X\",\"delta\":\"'' @ [CHR 0x5C] @ ''\"cat'' @ [CHR 0x5C] @ ''\"}\"}''"

definition args_done_payload :: string where
  "args_done_payload = ''{\"item_id\":\"X\",\"arguments\":\"{'' @ [CHR 0x5C] @ ''\"q'' @ [CHR 0x5C]
     @ ''\":'' @ [CHR 0x5C] @ ''\"cat'' @ [CHR 0x5C] @ ''\"}\"}''"

definition item_done_payload :: string where
  "item_done_payload = ''{\"item\":{\"id\":\"X\",\"type\":\"function_call\",\"name\":\"lookup\",\"arguments\":\"{''
     @ [CHR 0x5C] @ ''\"q'' @ [CHR 0x5C] @ ''\":'' @ [CHR 0x5C] @ ''\"cat'' @ [CHR 0x5C] @ ''\"}\"}}''"

definition stream_payloads :: "(jsstring \<times> json) list" where
  "stream_payloads = [
     (js ''{\"delta\":\"'' @ [0xE9] @ js ''\"}'', JObj [(js ''delta'', JStr [0xE9])]),
     (js ''{\"delta\":\"'' @ [0xFFFD, 0xFFFD] @ js ''\"}'', JObj [(js ''delta'', JStr [0xFFFD, 0xFFFD])]),
     (js added_payload, JObj [(js ''item'', JObj [(js ''id'', JStr (js ''X'')),
        (js ''type'', JStr (js ''function_call'')), (js ''name'', JStr (js ''lookup''))])]),
     (js delta1_payload, JObj [(js ''item_id'', JStr (js ''X'')), (js ''delta'', JStr (js ''{\"q\":''))]),
     (js delta2_payload, JObj [(js ''item_id'', JStr (js ''X'')), (js ''delta'', JStr (js ''\"cat\"}''))]),
     (js args_done_payload, JObj [(js ''item_id'', JStr (js ''X'')),
        (js ''arguments'', JStr (js ''{\"q\":\"cat\"}''))]),
     (js item_done_payload, JObj [(js ''item'', JObj [(js ''id'', JStr (js ''X'')),
        (js ''type'', JStr (js ''function_call'')), (js ''name'', JStr (js ''lookup'')),
        (js ''arguments'', JStr (js ''{\"q\":\"cat\"}''))])])]"

definition stream_host :: host where
  "stream_host = demo_host\<lparr> JSON_parse := map_of stream_payloads \<rparr>"




text \<open>
  Two dispatches in flight on the pool of three keys, both answered 429 every time: each
  has sent its first request before either answer arrives, then the first one runs up to its
  second request, the second one likewise, and each is run to its end. And two dispatches on
  the pool of two keys, the first answered 429 and then 200: the second one, its request
  built with the key then current, starts when the first has sent its second request.
\<close>

definition two_dispatches :: "auth_state \<times> task list" where
  "two_dispatches = run (Inl (Error [])) 0 65536 [0, 1, 0, 0, 0, 1, 1, 1, 0, 0, 1, 1]
     (demo_pool3, [fetchWithFallback always_quota demo_request (js ''chat''),
                   fetchWithFallback always_quota demo_request (js ''messages'')])"


section \<open>The pool index stays in range\<close>

lemma pushKeys_length: "length (pushKeys e names keys) \<le> length keys + length names"
proof (induction names arbitrary: keys)
  case Nil
  show ?case by simp
next
  case (Cons a names)
  have same: "length (pushKeys e names keys) \<le> Suc (length keys + length names)"
    using Cons.IH[of keys] by simp
  have pushed: "length (pushKeys e names (keys @ [x])) \<le> Suc (length keys + length names)" for x
    using Cons.IH[of "keys @ [x]"] by simp
  show ?case using same pushed by (simp split: option.splits)
qed

lemma loadFactoryAuthFile_keys:
  "loadFactoryAuthFile E s = (r, s') \<Longrightarrow>
     factoryApiKeys s' = factoryApiKeys s \<and> currentKeyIndex s' = currentKeyIndex s \<and>
     (authSource s' = Some Factory_key \<longrightarrow> authSource s = Some Factory_key)"
  by (auto simp: loadFactoryAuthFile_def Let_def split: option.splits sum.splits if_splits)

lemma loadAuthConfig_pool_ok: "pool_ok (snd (loadAuthConfig E initial_auth))"
proof (cases "length (pushKeys (env E) keyEnvNames []) > 0")
  case True
  then show ?thesis by (simp add: loadAuthConfig_def initial_auth_def pool_ok_def Let_def)
next
  case False
  obtain r s2 where l: "loadFactoryAuthFile E
      (initial_auth\<lparr> factoryApiKeys := pushKeys (env E) keyEnvNames [] \<rparr>) = (r, s2)"
    by (cases "loadFactoryAuthFile E (initial_auth\<lparr> factoryApiKeys := pushKeys (env E) keyEnvNames [] \<rparr>)")
  from loadFactoryAuthFile_keys[OF l] False
  have "factoryApiKeys s2 = []" "authSource s2 \<noteq> Some Factory_key"
    by (auto simp: initial_auth_def)
  with False l show ?thesis
    by (auto simp: loadAuthConfig_def initial_auth_def pool_ok_def Let_def
             split: sum.splits option.splits)
qed

lemma rotate_pool_ok: "pool_ok s \<Longrightarrow> pool_ok (snd (rotateFactoryApiKey s))"
  by (auto simp: rotateFactoryApiKey_def pool_ok_def Let_def intro: mod_less_divisor)

lemma cycle_pool_ok: "pool_ok s \<Longrightarrow> pool_ok (startNewRotationCycle s)"
  by (auto simp: startNewRotationCycle_def pool_ok_def)

lemma getApiKey_pool_ok: "pool_ok s \<Longrightarrow> pool_ok (snd (getApiKey net now c s))"
  by (auto simp: getApiKey_def refreshApiKey_def pool_ok_def Let_def
           split: sum.splits prod.splits if_splits)

lemma reachable_pool_ok: "reachable E s \<Longrightarrow> pool_ok s"
  by (induction rule: reachable.induct)
     (simp_all add: loadAuthConfig_pool_ok rotate_pool_ok cycle_pool_ok getApiKey_pool_ok)

lemma js_simps: "js [] = []" "js (c # cs) = of_char c # js cs"
  by (simp_all add: js_def)

lemma loadFactoryAuthFile_returns:
  "loadFactoryAuthFile E s = (Inr (Some r), s') \<Longrightarrow> authSource s' = Some File"
  by (auto simp: loadFactoryAuthFile_def Let_def split: option.splits sum.splits if_splits)

lemma loadAuthConfig_factory_index:
  assumes "authSource (snd (loadAuthConfig E s0)) = Some Factory_key"
  shows "currentKeyIndex (snd (loadAuthConfig E s0)) = 0"
proof -
  obtain r s2 where l: "loadFactoryAuthFile E
      (s0\<lparr> factoryApiKeys := pushKeys (env E) keyEnvNames (factoryApiKeys s0) \<rparr>) = (r, s2)"
    by (cases "loadFactoryAuthFile E
      (s0\<lparr> factoryApiKeys := pushKeys (env E) keyEnvNames (factoryApiKeys s0) \<rparr>)")
  show ?thesis using assms l loadFactoryAuthFile_returns[of E _ _ s2]
    by (auto simp: loadAuthConfig_def Let_def split: sum.splits option.splits if_splits)
qed

lemma load_demo_env: "snd (loadAuthConfig demo_env initial_auth) = demo_pool"
  by (simp add: loadAuthConfig_def demo_env_def demo_pool_def keyEnvNames_def initial_auth_def
        Let_def js_simps trim_def isWhiteSpace_def)

text \<open>
  C10. In \<open>factory_key\<close> mode the pool's current key index is always below the number
  of loaded keys: \<open>loadAuthConfig\<close> sets it to 0 when it loads keys, a rotation that
  succeeds assigns \<open>(currentKeyIndex + 1) mod\<close> the pool size and one that is refused
  leaves the index as it is, and no operation changes the pool; so \<open>getApiKey\<close> returns
  \<open>Bearer\<close> followed by a key of the pool.
\<close>

theorem pool_index_in_range:
  assumes "reachable E s" and "authSource s = Some Factory_key"
  shows "(authSource (snd (loadAuthConfig E s0)) = Some Factory_key
            \<longrightarrow> currentKeyIndex (snd (loadAuthConfig E s0)) = 0)
       \<and> currentKeyIndex s < length (factoryApiKeys s)
       \<and> (case rotateFactoryApiKey s of
            (True, s') \<Rightarrow> currentKeyIndex s' = (currentKeyIndex s + 1) mod length (factoryApiKeys s)
                         \<and> factoryApiKeys s' = factoryApiKeys s
          | (False, s') \<Rightarrow> currentKeyIndex s' = currentKeyIndex s
                         \<and> factoryApiKeys s' = factoryApiKeys s)
       \<and> (\<exists>k \<in> set (factoryApiKeys s). getApiKey net now c s = (Inr (js ''Bearer '' @ k), s))"
proof -
  have ok: "pool_ok s" using assms(1) by (rule reachable_pool_ok)
  with assms(2) have lt: "currentKeyIndex s < length (factoryApiKeys s)"
    by (simp add: pool_ok_def)
  have rot: "(case rotateFactoryApiKey s of
            (True, s') \<Rightarrow> currentKeyIndex s' = (currentKeyIndex s + 1) mod length (factoryApiKeys s)
                         \<and> factoryApiKeys s' = factoryApiKeys s
          | (False, s') \<Rightarrow> currentKeyIndex s' = currentKeyIndex s
                         \<and> factoryApiKeys s' = factoryApiKeys s)"
    by (simp add: rotateFactoryApiKey_def Let_def)
  have get: "\<exists>k \<in> set (factoryApiKeys s). getApiKey net now c s = (Inr (js ''Bearer '' @ k), s)"
    using lt assms(2) by (auto simp: getApiKey_def)
  show ?thesis using loadAuthConfig_factory_index lt rot get by blast
qed

theorem pool_index_in_range_witness:
  "reachable demo_env (snd (rotateFactoryApiKey (startNewRotationCycle demo_pool)))
   \<and> authSource (snd (rotateFactoryApiKey (startNewRotationCycle demo_pool))) = Some Factory_key
   \<and> snd (rotateFactoryApiKey (startNewRotationCycle demo_pool)) = demo_pool\<lparr> currentKeyIndex := 1 \<rparr>
   \<and> currentKeyIndex (snd (rotateFactoryApiKey (startNewRotationCycle demo_pool)))
       < length (factoryApiKeys (snd (rotateFactoryApiKey (startNewRotationCycle demo_pool))))
   \<and> getApiKey (Inl (Error [])) 0 None (demo_pool\<lparr> currentKeyIndex := 1 \<rparr>)
       = (Inr (js ''Bearer fk-two''), demo_pool\<lparr> currentKeyIndex := 1 \<rparr>)"
proof -
  let ?s = "snd (rotateFactoryApiKey (startNewRotationCycle demo_pool))"
  have r: "reachable demo_env ?s"
    using reachable.rotated[OF reachable.cycle[OF reachable.loaded[of demo_env]]]
    by (simp add: load_demo_env)
  have e: "?s = demo_pool\<lparr> currentKeyIndex := 1 \<rparr>"
    by (simp add: rotateFactoryApiKey_def startNewRotationCycle_def demo_pool_def
          initial_auth_def Let_def)
  have a: "authSource ?s = Some Factory_key"
    by (subst e) (simp add: demo_pool_def)
  have g: "getApiKey (Inl (Error [])) 0 None (demo_pool\<lparr> currentKeyIndex := 1 \<rparr>)
       = (Inr (js ''Bearer fk-two''), demo_pool\<lparr> currentKeyIndex := 1 \<rparr>)"
    by (simp add: getApiKey_def demo_pool_def initial_auth_def js_simps)
  have lt: "currentKeyIndex ?s < length (factoryApiKeys ?s)"
    using pool_index_in_range[OF r a, of initial_auth "Inl (Error [])" 0 None] by blast
  show ?thesis using r a e lt g by blast
qed

section \<open>The dispatcher\<close>

lemma next_index_differs:
  fixes c0 j N :: nat
  assumes "c0 < N" "Suc j < N"
  shows "Suc ((c0 + j) mod N) mod N \<noteq> c0"
proof -
  have e: "Suc ((c0 + j) mod N) mod N = (c0 + Suc j) mod N" by (simp add: mod_Suc_eq)
  have "(c0 + Suc j) mod N \<noteq> c0"
  proof (cases "c0 + Suc j < N")
    case True
    then show ?thesis by simp
  next
    case False
    then have "(c0 + Suc j) mod N = (c0 + Suc j - N) mod N" by (simp add: le_mod_geq)
    also have "\<dots> = c0 + Suc j - N" using assms by simp
    finally show ?thesis using assms False by arith
  qed
  with e show ?thesis by simp
qed

lemma full_cycle_returns:
  fixes c0 N :: nat
  assumes "c0 < N"
  shows "Suc ((c0 + (N - 1)) mod N) mod N = c0"
proof -
  have "Suc ((c0 + (N - 1)) mod N) mod N = (c0 + Suc (N - 1)) mod N" by (simp add: mod_Suc_eq)
  also have "\<dots> = (c0 + N) mod N" using assms by simp
  also have "\<dots> = c0" using assms by simp
  finally show ?thesis .
qed

lemma cycle_distinct:
  fixes c0 N :: nat
  assumes "c0 < N"
  shows "distinct (map (\<lambda>i. (c0 + i) mod N) [0..<N])"
proof -
  have "inj_on (\<lambda>i. (c0 + i) mod N) {0..<N}"
  proof (rule inj_onI)
    fix x y assume x: "x \<in> {0..<N}" and y: "y \<in> {0..<N}" and e: "(c0 + x) mod N = (c0 + y) mod N"
    have m: "(c0 + i) mod N = (if c0 + i < N then c0 + i else c0 + i - N)" if "i < N" for i
      using that assms by (simp add: le_mod_geq)
    from x y e m[of x] m[of y] assms show "x = y"
      by (auto split: if_splits)
  qed
  then show ?thesis by (simp add: distinct_map)
qed


lemma in_cycle_next:
  "in_cycle keys c0 j s \<Longrightarrow> Suc j < length keys \<Longrightarrow>
   in_cycle keys c0 (Suc j) (s\<lparr> currentKeyIndex := (c0 + Suc j) mod length keys \<rparr>)"
  by (simp add: in_cycle_def)

lemma authorization_update [simp]:
  "authorization (fo\<lparr> headers := AList.update (js ''authorization'') h (headers fo) \<rparr>) = Some h"
  by (simp add: authorization_def update_conv')

lemma fallbackEvents_simps [simp]:
  "fallbackEvents [] = []"
  "fallbackEvents (xs @ ys) = fallbackEvents xs @ fallbackEvents ys"
  "fallbackEvents (LogAttempt a i t # xs) = fallbackEvents xs"
  "fallbackEvents (LogKeyFailure n st b a # xs) = fallbackEvents xs"
  "fallbackEvents (LogRetrying n # xs) = fallbackEvents xs"
  "fallbackEvents (LogExhausted n # xs) = fallbackEvents xs"
  "fallbackEvents (LogNetworkError a e # xs) = fallbackEvents xs"
  "fallbackEvents (LogFallbackSuccess n i t st # xs) = LogFallbackSuccess n i t st # fallbackEvents xs"
  by (simp_all add: fallbackEvents_def)

lemma alone_add:
  "alone net now cb (m + n) s t = (case alone net now cb m s t of (s1, t1) \<Rightarrow> alone net now cb n s1 t1)"
  by (induction m arbitrary: s t) (simp_all split: prod.splits)

lemma alone_Returned: "phase t = Returned r \<Longrightarrow> alone net now cb n s t = (s, t)"
  by (induction n) (simp_all add: fetchStep_def)

lemma alone_Threw: "phase t = Threw e \<Longrightarrow> alone net now cb n s t = (s, t)"
  by (induction n) (simp_all add: fetchStep_def)

lemma loopTop_in_cycle:
  assumes "in_cycle keys c0 j s" and "attempt t \<le> maxAttempts"
  shows "loopTop s t = t\<lparr> phase := AwaitingFetch, sent := sent t @ [options t],
           logged := logged t @ [LogAttempt (attempt t) (Suc (currentKeyIndex s)) (length keys)] \<rparr>"
proof -
  have pos: "0 < length keys" using assms(1) by (auto simp: in_cycle_def)
  have lt: "(c0 + j) mod length keys < length keys" using pos by (rule mod_less_divisor)
  show ?thesis
    using assms lt by (auto simp: loopTop_def getCurrentKeyInfo_def in_cycle_def)
qed

lemma retry_round:
  assumes c: "in_cycle keys c0 j s" and more: "Suc j < length keys"
      and p: "phase t = AwaitingFetch" and a: "Suc (attempt t) \<le> maxAttempts"
      and u: "answers t (length (sent t) - 1) (options t) = Inr (st, b)"
      and q: "isQuotaOrAuthError st" and small: "length b < cb"
  shows "alone net now cb (Suc (Suc (Suc 0))) s t =
         (s\<lparr> currentKeyIndex := (c0 + Suc j) mod length keys \<rparr>,
          t\<lparr> phase := AwaitingFetch,
             attempt := Suc (attempt t),
             options := (options t)\<lparr> headers := AList.update (js ''authorization'')
                (bearer keys ((c0 + Suc j) mod length keys)) (headers (options t)) \<rparr>,
             sent := sent t @ [(options t)\<lparr> headers := AList.update (js ''authorization'')
                (bearer keys ((c0 + Suc j) mod length keys)) (headers (options t)) \<rparr>],
             logged := logged t @ [LogKeyFailure (endpointName t) st (take 200 (toString b)) (attempt t),
                  LogRetrying (endpointName t),
                  LogAttempt (Suc (attempt t)) (Suc ((c0 + Suc j) mod length keys)) (length keys)] \<rparr>)"
proof -
  let ?N = "length keys"
  let ?s1 = "s\<lparr> currentKeyIndex := (c0 + Suc j) mod ?N \<rparr>"
  let ?resp = "\<lparr> status = st, body = b, bodyUsed = False \<rparr>"
  let ?lg = "logged t @ [LogKeyFailure (endpointName t) st (take 200 (toString b)) (attempt t)]"
  have n: "Suc ((c0 + j) mod ?N) mod ?N \<noteq> c0"
    using c more by (intro next_index_differs) (auto simp: in_cycle_def)
  have e: "Suc ((c0 + j) mod ?N) mod ?N = (c0 + Suc j) mod ?N" by (simp add: mod_Suc_eq)
  have pos: "0 < ?N" using c by (auto simp: in_cycle_def)
  have lt: "(c0 + Suc j) mod ?N < ?N" using pos by (rule mod_less_divisor)
  have c1: "in_cycle keys c0 (Suc j) ?s1" using c more by (rule in_cycle_next)
  have s1: "fetchStep net now cb s t = (s, t\<lparr> phase := AwaitingText ?resp \<rparr>)"
    using p u q by (simp add: fetchStep_def fetch_def)
  have s2: "fetchStep net now cb s (t\<lparr> phase := AwaitingText ?resp \<rparr>) =
            (?s1, t\<lparr> phase := AwaitingKey (Inr (bearer keys ((c0 + Suc j) mod ?N))), logged := ?lg \<rparr>)"
    using c n lt pos small
    by (simp add: fetchStep_def cloneText_def clone_def in_cycle_def hasMoreFactoryKeys_def
        rotateFactoryApiKey_def getApiKey_def Let_def bearer_def e del: mod_Suc_eq)
  have s3: "fetchStep net now cb ?s1 (t\<lparr> phase := AwaitingKey (Inr (bearer keys ((c0 + Suc j) mod ?N))), logged := ?lg \<rparr>) =
            (?s1, loopTop ?s1 (t\<lparr> phase := AwaitingKey (Inr (bearer keys ((c0 + Suc j) mod ?N))), logged := ?lg,
                 options := (options t)\<lparr> headers := AList.update (js ''authorization'')
                     (bearer keys ((c0 + Suc j) mod ?N)) (headers (options t)) \<rparr>,
                 logged := ?lg @ [LogRetrying (endpointName t)],
                 attempt := attempt t + 1 \<rparr>))"
    by (simp add: fetchStep_def)
  show ?thesis
    apply (simp only: alone.simps s1 s2 s3 prod.case)
    apply (subst loopTop_in_cycle[OF c1])
    using a apply simp
    apply simp
    done
qed

lemma last_round:
  assumes c: "in_cycle keys c0 j s" and last: "Suc j = length keys"
      and p: "phase t = AwaitingFetch"
      and u: "answers t (length (sent t) - 1) (options t) = Inr (st, b)"
      and q: "isQuotaOrAuthError st" and small: "length b < cb"
  shows "alone net now cb (Suc (Suc 0)) s t =
         (s\<lparr> hasCompletedFullCycle := True \<rparr>,
          t\<lparr> phase := Returned \<lparr> status = st, body = b, bodyUsed = False \<rparr>,
             logged := logged t @ [LogKeyFailure (endpointName t) st (take 200 (toString b)) (attempt t),
                  LogExhausted (endpointName t)] \<rparr>)"
proof -
  let ?N = "length keys"
  let ?resp = "\<lparr> status = st, body = b, bodyUsed = False \<rparr>"
  have c0: "c0 < ?N" using c by (simp add: in_cycle_def)
  have j: "j = ?N - 1" using last by simp
  have n: "Suc ((c0 + j) mod ?N) mod ?N = c0"
    unfolding j using c0 by (rule full_cycle_returns)
  have pos: "0 < ?N" using c by (auto simp: in_cycle_def)
  have s1: "fetchStep net now cb s t = (s, t\<lparr> phase := AwaitingText ?resp \<rparr>)"
    using p u q by (simp add: fetchStep_def fetch_def)
  have s2: "fetchStep net now cb s (t\<lparr> phase := AwaitingText ?resp \<rparr>) =
         (s\<lparr> hasCompletedFullCycle := True \<rparr>,
          t\<lparr> phase := Returned ?resp,
             logged := logged t @ [LogKeyFailure (endpointName t) st (take 200 (toString b)) (attempt t),
                  LogExhausted (endpointName t)] \<rparr>)"
    using c n pos small
    by (simp add: fetchStep_def cloneText_def clone_def in_cycle_def hasMoreFactoryKeys_def
        rotateFactoryApiKey_def Let_def del: mod_Suc_eq)
  show ?thesis
    by (simp only: alone.simps s1 s2 prod.case)
qed




lemma quota_answerD:
  assumes "quota_answer cb up i"
  obtains st b where "up i fo = Inr (st, b)" "isQuotaOrAuthError st" "length b < cb"
  using assms unfolding quota_answer_def by blast

lemma alone_exhausts:
  assumes "in_cycle keys c0 j s" and "phase t = AwaitingFetch"
      and "length (sent t) = Suc j" and "attempt t = Suc j" and "last (sent t) = options t"
      and "length keys \<le> maxAttempts"
      and "\<forall>i. j \<le> i \<and> i < length keys \<longrightarrow> quota_answer cb (answers t) i"
      and "authorization (options t) = Some (bearer keys ((c0 + j) mod length keys))"
  shows "let t' = snd (alone net now cb (3 * (length keys - Suc j) + 2) s t) in
     map authorization (sent t') =
       map authorization (sent t) @ map (\<lambda>i. Some (bearer keys ((c0 + i) mod length keys))) [Suc j..<length keys]
     \<and> (\<exists>resp. phase t' = Returned resp \<and> fetch (answers t) (length keys - 1) (last (sent t')) = Inr resp
           \<and> isQuotaOrAuthError (status resp) \<and> \<not> bodyUsed resp)
     \<and> fallbackEvents (logged t') = fallbackEvents (logged t)"
  using assms
proof (induction "length keys - Suc j" arbitrary: j s t)
  case 0
  then have last: "Suc j = length keys" by (simp add: in_cycle_def)
  from 0 have "quota_answer cb (answers t) j" by (simp add: in_cycle_def)
  then obtain st b where u0: "answers t j (options t) = Inr (st, b)" and q: "isQuotaOrAuthError st"
      and small: "length b < cb"
    by (rule quota_answerD)
  have u: "answers t (length (sent t) - 1) (options t) = Inr (st, b)" using u0 "0.prems"(3) by simp
  have n2: "3 * (length keys - Suc j) + 2 = Suc (Suc 0)" using last by simp
  have fin: "alone net now cb (Suc (Suc 0)) s t =
         (s\<lparr> hasCompletedFullCycle := True \<rparr>,
          t\<lparr> phase := Returned \<lparr> status = st, body = b, bodyUsed = False \<rparr>,
             logged := logged t @ [LogKeyFailure (endpointName t) st (take 200 (toString b)) (attempt t),
                  LogExhausted (endpointName t)] \<rparr>)"
    using "0.prems"(1) last "0.prems"(2) u q small by (rule last_round)
  have f: "fetch (answers t) (length keys - 1) (last (sent t)) = Inr \<lparr> status = st, body = b, bodyUsed = False \<rparr>"
    using u0 "0.prems"(5) by (simp add: fetch_def last[symmetric])
  have upt: "[Suc j..<length keys] = []" using last by simp
  show ?case
    unfolding n2 fin Let_def using q f by (simp add: upt)
next
  case (Suc n)
  then have more: "Suc j < length keys" by simp
  from Suc have "quota_answer cb (answers t) j" by (simp add: in_cycle_def)
  then obtain st b where u0: "answers t j (options t) = Inr (st, b)" and q: "isQuotaOrAuthError st"
      and small: "length b < cb"
    by (rule quota_answerD)
  have u: "answers t (length (sent t) - 1) (options t) = Inr (st, b)" using u0 Suc.prems(3) by simp
  have a: "Suc (attempt t) \<le> maxAttempts" using Suc.prems(4,6) more by simp
  let ?s = "s\<lparr> currentKeyIndex := (c0 + Suc j) mod length keys \<rparr>"
  let ?fo = "(options t)\<lparr> headers := AList.update (js ''authorization'')
                (bearer keys ((c0 + Suc j) mod length keys)) (headers (options t)) \<rparr>"
  let ?t = "t\<lparr> phase := AwaitingFetch,
             attempt := Suc (attempt t),
             options := ?fo,
             sent := sent t @ [?fo],
             logged := logged t @ [LogKeyFailure (endpointName t) st (take 200 (toString b)) (attempt t),
                  LogRetrying (endpointName t),
                  LogAttempt (Suc (attempt t)) (Suc ((c0 + Suc j) mod length keys)) (length keys)] \<rparr>"
  have round: "alone net now cb (Suc (Suc (Suc 0))) s t = (?s, ?t)"
    using Suc.prems(1) more Suc.prems(2) a u q small by (rule retry_round)
  have n3: "3 * (length keys - Suc j) + 2 = Suc (Suc (Suc 0)) + (3 * (length keys - Suc (Suc j)) + 2)"
    using more by simp
  have step: "alone net now cb (3 * (length keys - Suc j) + 2) s t =
              alone net now cb (3 * (length keys - Suc (Suc j)) + 2) ?s ?t"
    unfolding n3 by (subst alone_add) (simp only: round prod.case)
  define t' where "t' = snd (alone net now cb (3 * (length keys - Suc (Suc j)) + 2) ?s ?t)"
  have "let t' = snd (alone net now cb (3 * (length keys - Suc (Suc j)) + 2) ?s ?t) in
     map authorization (sent t') =
       map authorization (sent ?t) @ map (\<lambda>i. Some (bearer keys ((c0 + i) mod length keys))) [Suc (Suc j)..<length keys]
     \<and> (\<exists>resp. phase t' = Returned resp \<and> fetch (answers ?t) (length keys - 1) (last (sent t')) = Inr resp
           \<and> isQuotaOrAuthError (status resp) \<and> \<not> bodyUsed resp)
     \<and> fallbackEvents (logged t') = fallbackEvents (logged ?t)"
  proof (rule Suc.hyps(1))
    show "n = length keys - Suc (Suc j)" using Suc.hyps(2) by simp
    show "in_cycle keys c0 (Suc j) ?s" using Suc.prems(1) more by (rule in_cycle_next)
    show "phase ?t = AwaitingFetch" by simp
    show "length (sent ?t) = Suc (Suc j)" using Suc.prems(3) by simp
    show "attempt ?t = Suc (Suc j)" using Suc.prems(4) by simp
    show "last (sent ?t) = options ?t" by simp
    show "length keys \<le> maxAttempts" by (rule Suc.prems(6))
    show "\<forall>i. Suc j \<le> i \<and> i < length keys \<longrightarrow> quota_answer cb (answers ?t) i" using Suc.prems(7) by simp
    show "authorization (options ?t) = Some (bearer keys ((c0 + Suc j) mod length keys))" by simp
  qed
  then have ih1: "map authorization (sent t') =
       map authorization (sent ?t) @ map (\<lambda>i. Some (bearer keys ((c0 + i) mod length keys))) [Suc (Suc j)..<length keys]"
    and ih2: "\<exists>resp. phase t' = Returned resp \<and> fetch (answers ?t) (length keys - 1) (last (sent t')) = Inr resp
           \<and> isQuotaOrAuthError (status resp) \<and> \<not> bodyUsed resp"
    and ih3: "fallbackEvents (logged t') = fallbackEvents (logged ?t)"
    unfolding t'_def[symmetric] Let_def by blast+
  have upt: "[Suc j..<length keys] = Suc j # [Suc (Suc j)..<length keys]" using more by (simp add: upt_rec)
  have c1: "map authorization (sent t') =
       map authorization (sent t) @ map (\<lambda>i. Some (bearer keys ((c0 + i) mod length keys))) [Suc j..<length keys]"
    using ih1 by (simp add: upt)
  have c2: "\<exists>resp. phase t' = Returned resp \<and> fetch (answers t) (length keys - 1) (last (sent t')) = Inr resp
           \<and> isQuotaOrAuthError (status resp) \<and> \<not> bodyUsed resp"
    using ih2 by simp
  have c3: "fallbackEvents (logged t') = fallbackEvents (logged t)"
    using ih3 by simp
  show ?case
    unfolding step t'_def[symmetric] Let_def using c1 c2 c3 by blast
qed


lemma reachable_pool_size: "reachable E s \<Longrightarrow> length (factoryApiKeys s) \<le> 7"
proof (induction rule: reachable.induct)
  case loaded
  obtain r s2 where l: "loadFactoryAuthFile E
      (initial_auth\<lparr> factoryApiKeys := pushKeys (env E) keyEnvNames [] \<rparr>) = (r, s2)"
    by (cases "loadFactoryAuthFile E (initial_auth\<lparr> factoryApiKeys := pushKeys (env E) keyEnvNames [] \<rparr>)")
  have "factoryApiKeys (snd (loadAuthConfig E initial_auth)) = pushKeys (env E) keyEnvNames []"
    using l loadFactoryAuthFile_keys[OF l]
    by (auto simp: loadAuthConfig_def initial_auth_def Let_def split: sum.splits option.splits)
  moreover have "length (pushKeys (env E) keyEnvNames []) \<le> 7"
    using pushKeys_length[of "env E" keyEnvNames "[]"] by (simp add: keyEnvNames_def)
  ultimately show ?case by simp
next
  case (rotated s)
  then show ?case by (auto simp: rotateFactoryApiKey_def Let_def)
next
  case (cycle s)
  then show ?case by (simp add: startNewRotationCycle_def)
next
  case (got s net now c)
  then show ?case
    by (auto simp: getApiKey_def refreshApiKey_def Let_def split: sum.splits prod.splits if_splits)
qed

lemma reachable_starts_cycle:
  assumes "reachable E s" and "2 \<le> length (factoryApiKeys s)"
  shows "in_cycle (factoryApiKeys s) (currentKeyIndex s) 0 (startNewRotationCycle s)"
proof -
  have ok: "pool_ok s" using assms(1) by (rule reachable_pool_ok)
  with assms(2) have "authSource s = Some Factory_key" "currentKeyIndex s < length (factoryApiKeys s)"
    by (auto simp: pool_ok_def split: if_splits)
  with assms(2) show ?thesis
    by (auto simp: in_cycle_def startNewRotationCycle_def)
qed

lemma load_demo_env3: "snd (loadAuthConfig demo_env3 initial_auth) = demo_pool3"
  by (simp add: loadAuthConfig_def demo_env3_def demo_pool3_def keyEnvNames_def initial_auth_def
        Let_def js_simps trim_def isWhiteSpace_def)

lemma start_stretch:
  assumes c: "in_cycle keys c0 0 (startNewRotationCycle s)"
  shows "fetchStep net now cb s (fetchWithFallback up fo name) =
         (startNewRotationCycle s,
          \<lparr> phase = AwaitingFetch, attempt = 1, options = fo, sent = [fo],
            logged = [LogAttempt 1 (Suc (currentKeyIndex s)) (length keys)],
            endpointName = name, answers = up \<rparr>)"
proof -
  have a: "attempt (fetchWithFallback up fo name) \<le> maxAttempts"
    by (simp add: fetchWithFallback_def maxAttempts_def)
  have "fetchStep net now cb s (fetchWithFallback up fo name) =
        (startNewRotationCycle s, loopTop (startNewRotationCycle s) (fetchWithFallback up fo name))"
    by (simp add: fetchStep_def fetchWithFallback_def Let_def)
  also have "loopTop (startNewRotationCycle s) (fetchWithFallback up fo name) =
          \<lparr> phase = AwaitingFetch, attempt = 1, options = fo, sent = [fo],
            logged = [LogAttempt 1 (Suc (currentKeyIndex s)) (length keys)],
            endpointName = name, answers = up \<rparr>"
    by (subst loopTop_in_cycle[OF c a]) (simp add: fetchWithFallback_def startNewRotationCycle_def)
  finally show ?thesis .
qed




text \<open>A quota or auth answer whose body does not fit the clone's buffer: the dispatch
  waits for the text of the clone for ever.\<close>

lemma clone_read_stalls:
  assumes "phase t = AwaitingText r" and "cloneBuffer \<le> length (body r)"
  shows "alone net now cloneBuffer n s t = (s, t)"
proof (induction n)
  case 0
  show ?case by simp
next
  case (Suc n)
  have "fetchStep net now cloneBuffer s t = (s, t)"
    using assms by (simp add: fetchStep_def cloneText_def clone_def)
  then show ?case using Suc by simp
qed

text \<open>
  C1, for a dispatch that runs with no other dispatch in between. For a pool of
  \<open>N \<ge> 2\<close> loaded keys, a dispatch whose first \<open>N\<close> answers are quota or auth failures
  (401, 402, 403, 429) with bodies short enough for the clone to be read sends exactly
  \<open>N\<close> requests, one with each key of the pool in cyclic order from the key current at
  dispatch start (so \<open>N\<close> distinct pool positions), and after \<open>3 N\<close> stretches it has
  returned the answer to the last request as \<open>fetch\<close> produced it, its body unread.
\<close>

theorem full_cycle_then_exhaustion:
  assumes "reachable E s" and "2 \<le> length (factoryApiKeys s)"
      and "\<forall>i < length (factoryApiKeys s). quota_answer cloneBuffer up i"
      and "authorization fo = Some (js ''Bearer '' @ factoryApiKeys s ! currentKeyIndex s)"
      and "3 * length (factoryApiKeys s) \<le> n"
  shows "let N = length (factoryApiKeys s); c0 = currentKeyIndex s;
             t = snd (alone net now cloneBuffer n s (fetchWithFallback up fo name)) in
       length (sent t) = N
     \<and> map authorization (sent t) =
         map (\<lambda>i. Some (js ''Bearer '' @ factoryApiKeys s ! ((c0 + i) mod N))) [0..<N]
     \<and> distinct (map (\<lambda>i. (c0 + i) mod N) [0..<N])
     \<and> (\<exists>resp. phase t = Returned resp \<and> fetch up (N - 1) (last (sent t)) = Inr resp
           \<and> isQuotaOrAuthError (status resp) \<and> \<not> bodyUsed resp)"
proof -
  let ?keys = "factoryApiKeys s"
  let ?N = "length ?keys"
  let ?c0 = "currentKeyIndex s"
  let ?s1 = "startNewRotationCycle s"
  let ?t1 = "\<lparr> phase = AwaitingFetch, attempt = 1, options = fo, sent = [fo],
            logged = [LogAttempt 1 (Suc ?c0) ?N], endpointName = name, answers = up \<rparr>"
  let ?m = "3 * (?N - Suc 0) + 2"
  have c: "in_cycle ?keys ?c0 0 ?s1"
    using assms(1,2) by (rule reachable_starts_cycle)
  have c0: "?c0 < ?N" using c by (simp add: in_cycle_def)
  have sz: "?N \<le> maxAttempts"
    using reachable_pool_size[OF assms(1)] by (simp add: maxAttempts_def)
  have au: "authorization (options ?t1) = Some (bearer ?keys ((?c0 + 0) mod ?N))"
    using assms(4) c0 by (simp add: bearer_def)
  have q: "\<forall>i. 0 \<le> i \<and> i < ?N \<longrightarrow> quota_answer cloneBuffer (answers ?t1) i" using assms(3) by simp
  have "let t' = snd (alone net now cloneBuffer ?m ?s1 ?t1) in
     map authorization (sent t') =
       map authorization (sent ?t1) @ map (\<lambda>i. Some (bearer ?keys ((?c0 + i) mod ?N))) [Suc 0..<?N]
     \<and> (\<exists>resp. phase t' = Returned resp \<and> fetch (answers ?t1) (?N - 1) (last (sent t')) = Inr resp
           \<and> isQuotaOrAuthError (status resp) \<and> \<not> bodyUsed resp)
     \<and> fallbackEvents (logged t') = fallbackEvents (logged ?t1)"
    using c _ _ _ _ sz q au by (rule alone_exhausts) simp_all
  note all = this[unfolded Let_def]
  define t' where "t' = snd (alone net now cloneBuffer ?m ?s1 ?t1)"
  define s' where "s' = fst (alone net now cloneBuffer ?m ?s1 ?t1)"
  have upt: "[0..<?N] = 0 # [Suc 0..<?N]" using assms(2) by (auto simp: upt_rec)
  from all have m: "map authorization (sent t') = map (\<lambda>i. Some (bearer ?keys ((?c0 + i) mod ?N))) [0..<?N]"
    unfolding t'_def[symmetric] using au by (simp add: upt)
  from all have b: "\<exists>resp. phase t' = Returned resp \<and> fetch up (?N - 1) (last (sent t')) = Inr resp
           \<and> isQuotaOrAuthError (status resp) \<and> \<not> bodyUsed resp"
    unfolding t'_def[symmetric] by simp
  then obtain resp where ret: "phase t' = Returned resp" by blast
  have "length (map authorization (sent t')) = ?N" unfolding m by simp
  then have l: "length (sent t') = ?N" by simp
  have d: "distinct (map (\<lambda>i. (?c0 + i) mod ?N) [0..<?N])" using c0 by (rule cycle_distinct)
  have n: "n = Suc 0 + (?m + (n - 3 * ?N))" using assms(2,5) by simp
  have a1: "alone net now cloneBuffer (Suc 0) s (fetchWithFallback up fo name) = (?s1, ?t1)"
    by (simp add: start_stretch[OF c])
  have a2: "alone net now cloneBuffer ?m ?s1 ?t1 = (s', t')" by (simp add: s'_def t'_def)
  have r1: "alone net now cloneBuffer n s (fetchWithFallback up fo name) = (s', t')"
    apply (subst n)
    apply (subst alone_add)
    apply (simp only: a1 prod.case)
    apply (subst alone_add)
    apply (simp only: a2 prod.case)
    apply (rule alone_Returned[OF ret])
    done
  show ?thesis
    unfolding Let_def r1 snd_conv using l m[unfolded bearer_def] d b by blast
qed

theorem full_cycle_then_exhaustion_witness:
  "reachable demo_env demo_pool \<and> 2 \<le> length (factoryApiKeys demo_pool)
   \<and> quota_answer 65536 always_quota 0 \<and> quota_answer 65536 always_quota 1
   \<and> authorization demo_request = Some (js ''Bearer '' @ factoryApiKeys demo_pool ! currentKeyIndex demo_pool)
   \<and> map authorization (sent (snd (alone (Inl (Error [])) 0 65536 6 demo_pool
         (fetchWithFallback always_quota demo_request (js ''chat'')))))
       = [Some (js ''Bearer fk-one''), Some (js ''Bearer fk-two'')]
   \<and> phase (snd (alone (Inl (Error [])) 0 65536 6 demo_pool
         (fetchWithFallback always_quota demo_request (js ''chat''))))
       = Returned \<lparr> status = 429, body = ''quota exceeded'', bodyUsed = False \<rparr>"
proof -
  let ?t = "snd (alone (Inl (Error [])) 0 65536 6 demo_pool
         (fetchWithFallback always_quota demo_request (js ''chat'')))"
  have r: "reachable demo_env demo_pool"
    using reachable.loaded[of demo_env] by (simp add: load_demo_env)
  have n: "length (factoryApiKeys demo_pool) = 2" by (simp add: demo_pool_def)
  have c: "currentKeyIndex demo_pool = 0" by (simp add: demo_pool_def initial_auth_def)
  have k: "factoryApiKeys demo_pool = [js ''fk-one'', js ''fk-two'']" by (simp add: demo_pool_def)
  have two: "2 \<le> length (factoryApiKeys demo_pool)" by (simp add: n)
  have q: "\<forall>i < length (factoryApiKeys demo_pool). quota_answer 65536 always_quota i"
    by (simp add: quota_answer_def always_quota_def isQuotaOrAuthError_def)
  have a: "authorization demo_request
             = Some (js ''Bearer '' @ factoryApiKeys demo_pool ! currentKeyIndex demo_pool)"
    by (simp add: authorization_def demo_request_def c k js_simps)
  have six: "3 * length (factoryApiKeys demo_pool) \<le> 6" by (simp add: n)
  have upt: "[0..<2] = [0, Suc 0]" by (simp add: upt_rec)
  note t = full_cycle_then_exhaustion[OF r two q a six, of "Inl (Error [])" 0 "js ''chat''",
              unfolded Let_def n c]
  from t have m: "map authorization (sent ?t) = [Some (js ''Bearer fk-one''), Some (js ''Bearer fk-two'')]"
    by (simp add: upt k js_simps)
  from t have o: "phase ?t = Returned \<lparr> status = 429, body = ''quota exceeded'', bodyUsed = False \<rparr>"
    by (auto simp: fetch_def always_quota_def)
  have q0: "quota_answer 65536 always_quota 0" "quota_answer 65536 always_quota 1"
    by (simp_all add: quota_answer_def always_quota_def isQuotaOrAuthError_def)
  show ?thesis using r two q0 a m o by blast
qed


lemmas dispatch_eval = fetchWithFallback_def fetchStep_def loopTop_def maxAttempts_def
      startNewRotationCycle_def getCurrentKeyInfo_def initial_auth_def fetch_def
      isQuotaOrAuthError_def cloneText_def clone_def hasMoreFactoryKeys_def
      rotateFactoryApiKey_def getApiKey_def didRotationOccur_def Let_def authorization_def demo_request_def
      update_conv' js_simps

text \<open>
  With a second dispatch in flight the count fails. On the pool of three keys, both answered
  429 every time, the rotations of the two dispatches move the one shared index: the first
  sends two requests (keys one and two) and reports exhaustion, the second sends two as well
  (keys one and three).
\<close>

theorem full_cycle_counterexample:
  "reachable demo_env3 demo_pool3 \<and> length (factoryApiKeys demo_pool3) = 3
   \<and> quota_answer 65536 always_quota 0 \<and> quota_answer 65536 always_quota 1
   \<and> quota_answer 65536 always_quota 2
   \<and> authorization demo_request = Some (js ''Bearer '' @ factoryApiKeys demo_pool3 ! currentKeyIndex demo_pool3)
   \<and> phase (snd two_dispatches ! 0) = Returned \<lparr> status = 429, body = ''quota exceeded'', bodyUsed = False \<rparr>
   \<and> map authorization (sent (snd two_dispatches ! 0)) = [Some (js ''Bearer fk-one''), Some (js ''Bearer fk-two'')]
   \<and> phase (snd two_dispatches ! 1) = Returned \<lparr> status = 429, body = ''quota exceeded'', bodyUsed = False \<rparr>
   \<and> map authorization (sent (snd two_dispatches ! 1)) = [Some (js ''Bearer fk-one''), Some (js ''Bearer fk-three'')]"
proof -
  have r: "reachable demo_env3 demo_pool3"
    using reachable.loaded[of demo_env3] by (simp add: load_demo_env3)
  have n: "length (factoryApiKeys demo_pool3) = 3" by (simp add: demo_pool3_def)
  have q: "quota_answer 65536 always_quota 0" "quota_answer 65536 always_quota 1"
      "quota_answer 65536 always_quota 2"
    by (simp_all add: quota_answer_def always_quota_def isQuotaOrAuthError_def)
  have a: "authorization demo_request
             = Some (js ''Bearer '' @ factoryApiKeys demo_pool3 ! currentKeyIndex demo_pool3)"
    by (simp add: authorization_def demo_request_def demo_pool3_def initial_auth_def js_simps)
  have e: "map (\<lambda>t. (phase t, map authorization (sent t))) (snd two_dispatches) =
     [(Returned \<lparr> status = 429, body = ''quota exceeded'', bodyUsed = False \<rparr>,
       [Some (js ''Bearer fk-one''), Some (js ''Bearer fk-two'')]),
      (Returned \<lparr> status = 429, body = ''quota exceeded'', bodyUsed = False \<rparr>,
       [Some (js ''Bearer fk-one''), Some (js ''Bearer fk-three'')])]"
    by (simp add: two_dispatches_def demo_pool3_def always_quota_def dispatch_eval)
  have l: "length (snd two_dispatches) = 2"
    using arg_cong[OF e, of length] by simp
  have p0: "(phase (snd two_dispatches ! 0), map authorization (sent (snd two_dispatches ! 0))) =
      (Returned \<lparr> status = 429, body = ''quota exceeded'', bodyUsed = False \<rparr>,
       [Some (js ''Bearer fk-one''), Some (js ''Bearer fk-two'')])"
    using arg_cong[OF e, of "\<lambda>xs. xs ! 0"] l by simp
  have p1: "(phase (snd two_dispatches ! 1), map authorization (sent (snd two_dispatches ! 1))) =
      (Returned \<lparr> status = 429, body = ''quota exceeded'', bodyUsed = False \<rparr>,
       [Some (js ''Bearer fk-one''), Some (js ''Bearer fk-three'')])"
    using arg_cong[OF e, of "\<lambda>xs. xs ! 1"] l by simp
  show ?thesis using r n q a p0 p1 by simp
qed





section \<open>The direct handlers and the normalizer\<close>

lemma decimal_digits: "\<forall>c \<in> set (decimal n). 48 \<le> c \<and> c \<le> 57"
proof (induction n rule: decimal.induct)
  case (1 n)
  show ?case
  proof (cases "n < 10")
    case True
    then show ?thesis by (subst decimal.simps) simp
  next
    case False
    have "n mod 10 < 10" by simp
    then have "48 + n mod 10 \<le> 57" by linarith
    with False 1 show ?thesis by (subst decimal.simps) auto
  qed
qed

lemma decimal_not_name:
  assumes "\<exists>c \<in> set k. \<not> (48 \<le> c \<and> c \<le> 57)"
  shows "decimal i \<noteq> k"
  using assms decimal_digits[of i] by auto

lemma map_of_indexed:
  assumes "\<And>i. decimal i \<noteq> k"
  shows "map_of (map (\<lambda>i. (decimal i, f i)) ns) k = None"
  using assms by (induction ns) auto

lemma map_of_spread:
  assumes "\<exists>c \<in> set k. \<not> (48 \<le> c \<and> c \<le> 57)"
  shows "map_of (spread v) k = ownprop v k"
proof -
  have d: "\<And>i. decimal i \<noteq> k" using assms by (rule decimal_not_name)
  show ?thesis
    by (cases v) (simp_all add: spread_def map_of_indexed[OF d])
qed

lemma name_max_output_tokens: "\<exists>c \<in> set (js ''max_output_tokens''). \<not> (48 \<le> c \<and> c \<le> 57)"
  by (simp add: js_simps)
lemma name_reasoning: "\<exists>c \<in> set (js ''reasoning''). \<not> (48 \<le> c \<and> c \<le> 57)"
  by (simp add: js_simps)
lemma name_thinking: "\<exists>c \<in> set (js ''thinking''). \<not> (48 \<le> c \<and> c \<le> 57)"
  by (simp add: js_simps)

lemma key_neqs [simp]:
  "js ''max_output_tokens'' \<noteq> js ''model''" "js ''max_output_tokens'' \<noteq> js ''instructions''"
  "js ''max_output_tokens'' \<noteq> js ''reasoning''"
  "js ''reasoning'' \<noteq> js ''model''" "js ''reasoning'' \<noteq> js ''instructions''"
  "js ''reasoning'' \<noteq> js ''max_output_tokens''"
  "js ''thinking'' \<noteq> js ''model''" "js ''thinking'' \<noteq> js ''system''"
  by (simp_all add: js_simps)



lemma withModel_lookup:
  assumes "\<exists>c \<in> set k. \<not> (48 \<le> c \<and> c \<le> 57)" and "k \<noteq> js ''model''"
  shows "map_of (withModel modelId req) k = ownprop req k"
  using assms(2) by (simp add: withModel_def update_conv' map_of_spread[OF assms(1)])

lemma injectInstructions_lookup:
  "k \<noteq> js ''instructions'' \<Longrightarrow> map_of (injectInstructions h p m) k = map_of m k"
  by (simp add: injectInstructions_def update_conv' split: option.splits)

lemma injectSystem_lookup:
  "k \<noteq> js ''system'' \<Longrightarrow> map_of (injectSystem p m) k = map_of m k"
  by (simp add: injectSystem_def Let_def update_conv' split: option.splits json.splits)

lemma enforceMinTokens_lookup:
  "k \<noteq> js ''max_output_tokens'' \<Longrightarrow> map_of (enforceMinTokens m) k = map_of m k"
  by (simp add: enforceMinTokens_def update_conv' split: option.splits json.splits)

lemma enforceMinTokens_floor:
  "map_of (enforceMinTokens m) (js ''max_output_tokens'') =
     (case map_of m (js ''max_output_tokens'') of
        Some (JNum n) \<Rightarrow> Some (JNum (if n < 16 then 16 else n))
      | other \<Rightarrow> other)"
  by (simp add: enforceMinTokens_def update_conv' split: option.splits json.splits)

lemma applyReasoning_lookup:
  "k \<noteq> js ''reasoning'' \<Longrightarrow> map_of (applyReasoning l m) k = map_of m k"
  by (simp add: applyReasoning_def update_conv' delete_conv' split: option.splits)

lemma responses_max_output_tokens:
  "map_of (responsesModifiedRequest h cfg modelId req) (js ''max_output_tokens'') =
     (case ownprop req (js ''max_output_tokens'') of
        Some (JNum n) \<Rightarrow> Some (JNum (if n < 16 then 16 else n))
      | other \<Rightarrow> other)"
  by (simp add: responsesModifiedRequest_def applyReasoning_lookup enforceMinTokens_floor
        injectInstructions_lookup withModel_lookup[OF name_max_output_tokens])


lemma handleDirectResponses_Forward:
  assumes "handleDirectResponses h cfg net now hdrs req s = (Forward url fo, s')"
  shows "\<exists>modelId requested. getp (Some req) (js ''model'') = Inr requested
           \<and> getRedirectedModelId cfg requested = Some modelId
           \<and> payload fo = JSON_stringify h (JObj (responsesModifiedRequest h cfg modelId req))"
proof -
  obtain requested where r: "getp (Some req) (js ''model'') = Inr requested"
    using assms by (cases "getp (Some req) (js ''model'')")
      (auto simp: handleDirectResponses_def internalError_def)
  obtain mid where m: "getRedirectedModelId cfg requested = Some mid"
    using assms r by (cases "getRedirectedModelId cfg requested")
      (auto simp: handleDirectResponses_def Let_def)
  have "payload fo = JSON_stringify h (JObj (responsesModifiedRequest h cfg mid req))"
    using assms r m
    by (auto simp: handleDirectResponses_def Let_def apiKeyNotAvailable_def
             split: option.splits if_splits prod.splits sum.splits)
  with r m show ?thesis by blast
qed


text \<open>
  C8. Every request that \<open>handleDirectResponses\<close> forwards whose \<open>max_output_tokens\<close>
  is a number below 16 goes out with \<open>max_output_tokens\<close> 16; a number of 16 or more goes
  out as it came.
\<close>

theorem max_output_tokens_floor:
  assumes "handleDirectResponses h cfg net now hdrs req s = (Forward url fo, s')"
      and "ownprop req (js ''max_output_tokens'') = Some (JNum n)"
  shows "\<exists>modelId. getRedirectedModelId cfg (ownprop req (js ''model'')) = Some modelId
            \<and> payload fo = JSON_stringify h (JObj (responsesModifiedRequest h cfg modelId req))
            \<and> map_of (responsesModifiedRequest h cfg modelId req) (js ''max_output_tokens'')
                = Some (JNum (if n < 16 then 16 else n))"
proof -
  from handleDirectResponses_Forward[OF assms(1)] obtain modelId requested where
    r: "getp (Some req) (js ''model'') = Inr requested" and
    m: "getRedirectedModelId cfg requested = Some modelId" and
    p: "payload fo = JSON_stringify h (JObj (responsesModifiedRequest h cfg modelId req))" by blast
  have "requested = ownprop req (js ''model'')"
    using r by (cases req) (simp_all add: getp_def)
  moreover have "map_of (responsesModifiedRequest h cfg modelId req) (js ''max_output_tokens'')
          = Some (JNum (if n < 16 then 16 else n))"
    using assms(2) by (simp add: responses_max_output_tokens)
  ultimately show ?thesis using m p by blast
qed

lemma demo_config_fields:
  "getRedirectedModelId demo_config m = m"
  "getModelById demo_config m = (if m = Some (JStr (js ''gpt'')) then Some (js ''openai'')
                          else if m = Some (JStr (js ''claude'')) \<or> m = Some (JStr (js ''claude-off''))
                          then Some (js ''anthropic'') else None)"
  "getEndpointByType demo_config t = Some (js ''https://upstream.example/'' @ t)"
  "getSystemPrompt demo_config = js ''Be brief. ''"
  "getModelReasoning demo_config m = (if m = Some (JStr (js ''claude-off'')) then Some (JStr (js ''off''))
                               else Some (JStr (js ''high'')))"
  "getModelProvider demo_config m = None"
  "getOpenAIHeaders demo_config a hdrs p = [(js ''authorization'', a)]"
  "getAnthropicHeaders demo_config a hdrs st m p = [(js ''authorization'', a)]"
  by (simp_all add: demo_config_def)

lemma demo_responses_modified:
  "responsesModifiedRequest demo_host demo_config (JStr (js ''gpt'')) small_budget_request =
     [(js ''model'', JStr (js ''gpt'')), (js ''max_output_tokens'', JNum 16),
      (js ''reasoning'', JObj [(js ''effort'', JStr (js ''high'')), (js ''summary'', JStr (js ''auto''))]),
      (js ''instructions'', JStr (js ''Be brief. ''))]"
  by (simp add: responsesModifiedRequest_def applyReasoning_def enforceMinTokens_def
        injectInstructions_def withModel_def spread_def small_budget_request_def demo_config_fields
        isReasoningLevel_def reasoningLevels_def js_simps)

lemma demo_responses_handled:
  "handleDirectResponses demo_host demo_config (Inl (Error [])) 0 [] small_budget_request demo_pool =
     (Forward (js ''https://upstream.example/openai'')
        \<lparr> http_method = js ''POST'', headers = [(js ''authorization'', js ''Bearer fk-one'')],
          payload = JSON_stringify demo_host
            (JObj (responsesModifiedRequest demo_host demo_config (JStr (js ''gpt'')) small_budget_request)) \<rparr>,
      demo_pool)"
proof -
  have k: "getApiKey (Inl (Error [])) 0 None demo_pool = (Inr (js ''Bearer fk-one''), demo_pool)"
    by (simp add: getApiKey_def demo_pool_def initial_auth_def js_simps)
  have p: "getp (Some small_budget_request) (js ''model'') = Inr (Some (JStr (js ''gpt'')))"
    by (simp add: getp_def small_budget_request_def js_simps)
  have c: "clientAuthorization [] = None" by (simp add: clientAuthorization_def)
  show ?thesis
    unfolding handleDirectResponses_def p c
    by (simp add: k[unfolded js_simps] demo_config_fields Let_def js_simps)
qed

theorem max_output_tokens_floor_witness:
  "handleDirectResponses demo_host demo_config (Inl (Error [])) 0 [] small_budget_request demo_pool =
     (Forward (js ''https://upstream.example/openai'')
        \<lparr> http_method = js ''POST'', headers = [(js ''authorization'', js ''Bearer fk-one'')],
          payload = JSON_stringify demo_host
            (JObj (responsesModifiedRequest demo_host demo_config (JStr (js ''gpt'')) small_budget_request)) \<rparr>,
      demo_pool)
   \<and> ownprop small_budget_request (js ''max_output_tokens'') = Some (JNum 5)
   \<and> map_of (responsesModifiedRequest demo_host demo_config (JStr (js ''gpt'')) small_budget_request)
         (js ''max_output_tokens'') = Some (JNum 16)"
proof -
  have o: "ownprop small_budget_request (js ''max_output_tokens'') = Some (JNum 5)"
    by (simp add: small_budget_request_def js_simps)
  have g: "getRedirectedModelId demo_config (ownprop small_budget_request (js ''model'')) = Some (JStr (js ''gpt''))"
    by (simp add: small_budget_request_def demo_config_fields js_simps)
  from max_output_tokens_floor[OF demo_responses_handled o] g
  have "map_of (responsesModifiedRequest demo_host demo_config (JStr (js ''gpt'')) small_budget_request)
         (js ''max_output_tokens'') = Some (JNum 16)" by simp
  with demo_responses_handled o show ?thesis by blast
qed


lemma handleDirectMessages_Forward:
  assumes "handleDirectMessages h cfg net now hdrs req s = (Forward url fo, s')"
  shows "\<exists>modelId requested. getp (Some req) (js ''model'') = Inr requested
           \<and> getRedirectedModelId cfg requested = Some modelId
           \<and> payload fo = JSON_stringify h (JObj (messagesModifiedRequest cfg modelId req))"
proof -
  obtain requested where r: "getp (Some req) (js ''model'') = Inr requested"
    using assms by (cases "getp (Some req) (js ''model'')")
      (auto simp: handleDirectMessages_def internalError_def)
  obtain mid where m: "getRedirectedModelId cfg requested = Some mid"
    using assms r by (cases "getRedirectedModelId cfg requested")
      (auto simp: handleDirectMessages_def Let_def)
  have "payload fo = JSON_stringify h (JObj (messagesModifiedRequest cfg mid req))"
    using assms r m
    by (auto simp: handleDirectMessages_def Let_def apiKeyNotAvailable_def
             split: option.splits if_splits prod.splits sum.splits)
  with r m show ?thesis by blast
qed

lemma level_names [simp]:
  "js ''high'' \<noteq> js ''auto''" "js ''medium'' \<noteq> js ''auto''" "js ''low'' \<noteq> js ''auto''"
  "js ''off'' \<noteq> js ''auto''" "js ''off'' \<notin> set reasoningLevels"
  "js ''high'' \<in> set reasoningLevels" "js ''medium'' \<in> set reasoningLevels"
  "js ''low'' \<in> set reasoningLevels"
  "js ''high'' \<noteq> []" "js ''medium'' \<noteq> []" "js ''low'' \<noteq> []" "js ''off'' \<noteq> []"
  by (simp_all add: reasoningLevels_def js_simps)

lemma budgetTokens_levels:
  "budgetTokens (js ''low'') = Some (JNum 4096)"
  "budgetTokens (js ''medium'') = Some (JNum 12288)"
  "budgetTokens (js ''high'') = Some (JNum 24576)"
  by (simp_all add: budgetTokens_def js_simps)

lemma applyThinking_cases:
  "map_of (applyThinking (Some (JStr (js ''high''))) m) (js ''thinking'') =
     Some (JObj [(js ''type'', JStr (js ''enabled'')), (js ''budget_tokens'', JNum 24576)])"
  "map_of (applyThinking (Some (JStr (js ''medium''))) m) (js ''thinking'') =
     Some (JObj [(js ''type'', JStr (js ''enabled'')), (js ''budget_tokens'', JNum 12288)])"
  "map_of (applyThinking (Some (JStr (js ''low''))) m) (js ''thinking'') =
     Some (JObj [(js ''type'', JStr (js ''enabled'')), (js ''budget_tokens'', JNum 4096)])"
  "map_of (applyThinking (Some (JStr (js ''off''))) m) (js ''thinking'') = None"
  "applyThinking (Some (JStr (js ''auto''))) m = m"
  by (simp_all add: applyThinking_def isReasoningLevel_def budgetTokens_levels update_conv' delete_conv')

lemma applyReasoning_cases:
  "l \<in> set reasoningLevels \<Longrightarrow>
   map_of (applyReasoning (Some (JStr l)) m) (js ''reasoning'') =
     Some (JObj [(js ''effort'', JStr l), (js ''summary'', JStr (js ''auto''))])"
  "map_of (applyReasoning (Some (JStr (js ''off''))) m) (js ''reasoning'') = None"
  "applyReasoning (Some (JStr (js ''auto''))) m = m"
proof -
  show "map_of (applyReasoning (Some (JStr l)) m) (js ''reasoning'') =
     Some (JObj [(js ''effort'', JStr l), (js ''summary'', JStr (js ''auto''))])"
    if "l \<in> set reasoningLevels"
  proof -
    from that have "l \<noteq> js ''auto''" "l \<noteq> []" by (auto simp: reasoningLevels_def js_simps)
    with that show ?thesis
      by (simp add: applyReasoning_def isReasoningLevel_def update_conv')
  qed
qed (simp_all add: applyReasoning_def isReasoningLevel_def delete_conv')


lemma messages_thinking:
  "map_of (messagesModifiedRequest cfg modelId req) (js ''thinking'') =
     map_of (applyThinking (getModelReasoning cfg (Some modelId))
               (injectSystem (getSystemPrompt cfg) (withModel modelId req))) (js ''thinking'')"
  "getModelReasoning cfg (Some modelId) = Some (JStr (js ''auto'')) \<Longrightarrow>
   map_of (messagesModifiedRequest cfg modelId req) (js ''thinking'') = ownprop req (js ''thinking'')"
  by (simp_all add: messagesModifiedRequest_def applyThinking_cases injectSystem_lookup
        withModel_lookup[OF name_thinking])

lemma responses_reasoning:
  "map_of (responsesModifiedRequest h cfg modelId req) (js ''reasoning'') =
     map_of (applyReasoning (getModelReasoning cfg (Some modelId))
       (enforceMinTokens (injectInstructions h (getSystemPrompt cfg) (withModel modelId req))))
       (js ''reasoning'')"
  "getModelReasoning cfg (Some modelId) = Some (JStr (js ''auto'')) \<Longrightarrow>
   map_of (responsesModifiedRequest h cfg modelId req) (js ''reasoning'') = ownprop req (js ''reasoning'')"
  by (simp_all add: responsesModifiedRequest_def applyReasoning_cases enforceMinTokens_lookup
        injectInstructions_lookup withModel_lookup[OF name_reasoning])

text \<open>
  C7. In every request that \<open>handleDirectMessages\<close> forwards, a model at level \<open>high\<close>,
  \<open>medium\<close> or \<open>low\<close> gets \<open>thinking\<close> enabled with a budget of 24576, 12288 or 4096
  tokens, a model at level \<open>off\<close> has no \<open>thinking\<close> field whatever the client sent, and a
  model at level \<open>auto\<close> keeps the client's \<open>thinking\<close> field as it was. In every request
  that \<open>handleDirectResponses\<close> forwards, a model at one of the three levels gets
  \<open>reasoning\<close> with that level as \<open>effort\<close> and \<open>summary\<close> \<open>auto\<close>, level \<open>off\<close>
  removes \<open>reasoning\<close>, and level \<open>auto\<close> keeps the client's.
\<close>

theorem reasoning_injection:
  "(handleDirectMessages h cfg net now hdrs req s = (Forward url fo, s') \<longrightarrow>
     (\<exists>modelId.
        getRedirectedModelId cfg (ownprop req (js ''model'')) = Some modelId
      \<and> payload fo = JSON_stringify h (JObj (messagesModifiedRequest cfg modelId req))
      \<and> (let level = getModelReasoning cfg (Some modelId);
              thinking = map_of (messagesModifiedRequest cfg modelId req) (js ''thinking'')
          in (level = Some (JStr (js ''high'')) \<longrightarrow> thinking = Some (JObj
                  [(js ''type'', JStr (js ''enabled'')), (js ''budget_tokens'', JNum 24576)]))
           \<and> (level = Some (JStr (js ''medium'')) \<longrightarrow> thinking = Some (JObj
                  [(js ''type'', JStr (js ''enabled'')), (js ''budget_tokens'', JNum 12288)]))
           \<and> (level = Some (JStr (js ''low'')) \<longrightarrow> thinking = Some (JObj
                  [(js ''type'', JStr (js ''enabled'')), (js ''budget_tokens'', JNum 4096)]))
           \<and> (level = Some (JStr (js ''off'')) \<longrightarrow> thinking = None)
           \<and> (level = Some (JStr (js ''auto'')) \<longrightarrow> thinking = ownprop req (js ''thinking'')))))
   \<and> (handleDirectResponses h2 cfg2 net2 now2 hdrs2 req2 s2 = (Forward url2 fo2, s2') \<longrightarrow>
     (\<exists>modelId2.
        getRedirectedModelId cfg2 (ownprop req2 (js ''model'')) = Some modelId2
      \<and> payload fo2 = JSON_stringify h2 (JObj (responsesModifiedRequest h2 cfg2 modelId2 req2))
      \<and> (let level = getModelReasoning cfg2 (Some modelId2);
              reasoning = map_of (responsesModifiedRequest h2 cfg2 modelId2 req2) (js ''reasoning'')
          in (\<forall>l \<in> set reasoningLevels. level = Some (JStr l) \<longrightarrow> reasoning = Some (JObj
                  [(js ''effort'', JStr l), (js ''summary'', JStr (js ''auto''))]))
           \<and> (level = Some (JStr (js ''off'')) \<longrightarrow> reasoning = None)
           \<and> (level = Some (JStr (js ''auto'')) \<longrightarrow> reasoning = ownprop req2 (js ''reasoning'')))))"
proof (intro conjI impI)
  assume a: "handleDirectMessages h cfg net now hdrs req s = (Forward url fo, s')"
  from handleDirectMessages_Forward[OF a] obtain modelId requested where
    r: "getp (Some req) (js ''model'') = Inr requested" and
    m: "getRedirectedModelId cfg requested = Some modelId" and
    p: "payload fo = JSON_stringify h (JObj (messagesModifiedRequest cfg modelId req))" by blast
  have q: "requested = ownprop req (js ''model'')"
    using r by (cases req) (simp_all add: getp_def)
  have t: "let level = getModelReasoning cfg (Some modelId);
             thinking = map_of (messagesModifiedRequest cfg modelId req) (js ''thinking'')
         in (level = Some (JStr (js ''high'')) \<longrightarrow> thinking = Some (JObj
                 [(js ''type'', JStr (js ''enabled'')), (js ''budget_tokens'', JNum 24576)]))
          \<and> (level = Some (JStr (js ''medium'')) \<longrightarrow> thinking = Some (JObj
                 [(js ''type'', JStr (js ''enabled'')), (js ''budget_tokens'', JNum 12288)]))
          \<and> (level = Some (JStr (js ''low'')) \<longrightarrow> thinking = Some (JObj
                 [(js ''type'', JStr (js ''enabled'')), (js ''budget_tokens'', JNum 4096)]))
          \<and> (level = Some (JStr (js ''off'')) \<longrightarrow> thinking = None)
          \<and> (level = Some (JStr (js ''auto'')) \<longrightarrow> thinking = ownprop req (js ''thinking''))"
    by (simp add: Let_def messages_thinking(2)) (simp add: messages_thinking(1) applyThinking_cases)
  show "\<exists>modelId.
        getRedirectedModelId cfg (ownprop req (js ''model'')) = Some modelId
      \<and> payload fo = JSON_stringify h (JObj (messagesModifiedRequest cfg modelId req))
      \<and> (let level = getModelReasoning cfg (Some modelId);
              thinking = map_of (messagesModifiedRequest cfg modelId req) (js ''thinking'')
          in (level = Some (JStr (js ''high'')) \<longrightarrow> thinking = Some (JObj
                  [(js ''type'', JStr (js ''enabled'')), (js ''budget_tokens'', JNum 24576)]))
           \<and> (level = Some (JStr (js ''medium'')) \<longrightarrow> thinking = Some (JObj
                  [(js ''type'', JStr (js ''enabled'')), (js ''budget_tokens'', JNum 12288)]))
           \<and> (level = Some (JStr (js ''low'')) \<longrightarrow> thinking = Some (JObj
                  [(js ''type'', JStr (js ''enabled'')), (js ''budget_tokens'', JNum 4096)]))
           \<and> (level = Some (JStr (js ''off'')) \<longrightarrow> thinking = None)
           \<and> (level = Some (JStr (js ''auto'')) \<longrightarrow> thinking = ownprop req (js ''thinking'')))"
    using m p t unfolding q by blast
next
  assume a: "handleDirectResponses h2 cfg2 net2 now2 hdrs2 req2 s2 = (Forward url2 fo2, s2')"
  from handleDirectResponses_Forward[OF a] obtain modelId2 requested2 where
    r2: "getp (Some req2) (js ''model'') = Inr requested2" and
    m2: "getRedirectedModelId cfg2 requested2 = Some modelId2" and
    p2: "payload fo2 = JSON_stringify h2 (JObj (responsesModifiedRequest h2 cfg2 modelId2 req2))" by blast
  have q2: "requested2 = ownprop req2 (js ''model'')"
    using r2 by (cases req2) (simp_all add: getp_def)
  have e: "let level = getModelReasoning cfg2 (Some modelId2);
             reasoning = map_of (responsesModifiedRequest h2 cfg2 modelId2 req2) (js ''reasoning'')
         in (\<forall>l \<in> set reasoningLevels. level = Some (JStr l) \<longrightarrow> reasoning = Some (JObj
                 [(js ''effort'', JStr l), (js ''summary'', JStr (js ''auto''))]))
          \<and> (level = Some (JStr (js ''off'')) \<longrightarrow> reasoning = None)
          \<and> (level = Some (JStr (js ''auto'')) \<longrightarrow> reasoning = ownprop req2 (js ''reasoning''))"
    by (simp add: Let_def responses_reasoning(2)) (simp add: responses_reasoning(1) applyReasoning_cases)
  show "\<exists>modelId2.
        getRedirectedModelId cfg2 (ownprop req2 (js ''model'')) = Some modelId2
      \<and> payload fo2 = JSON_stringify h2 (JObj (responsesModifiedRequest h2 cfg2 modelId2 req2))
      \<and> (let level = getModelReasoning cfg2 (Some modelId2);
              reasoning = map_of (responsesModifiedRequest h2 cfg2 modelId2 req2) (js ''reasoning'')
          in (\<forall>l \<in> set reasoningLevels. level = Some (JStr l) \<longrightarrow> reasoning = Some (JObj
                  [(js ''effort'', JStr l), (js ''summary'', JStr (js ''auto''))]))
           \<and> (level = Some (JStr (js ''off'')) \<longrightarrow> reasoning = None)
           \<and> (level = Some (JStr (js ''auto'')) \<longrightarrow> reasoning = ownprop req2 (js ''reasoning'')))"
    using m2 p2 e unfolding q2 by blast
qed

lemma demo_messages_handled:
  "handleDirectMessages demo_host demo_config (Inl (Error [])) 0 [] thinking_request demo_pool =
     (Forward (js ''https://upstream.example/anthropic'')
        \<lparr> http_method = js ''POST'', headers = [(js ''authorization'', js ''Bearer fk-one'')],
          payload = JSON_stringify demo_host
            (JObj (messagesModifiedRequest demo_config (JStr (js ''claude'')) thinking_request)) \<rparr>,
      demo_pool)"
proof -
  have k: "getApiKey (Inl (Error [])) 0 None demo_pool = (Inr (js ''Bearer fk-one''), demo_pool)"
    by (simp add: getApiKey_def demo_pool_def initial_auth_def js_simps)
  have p: "getp (Some thinking_request) (js ''model'') = Inr (Some (JStr (js ''claude'')))"
    by (simp add: getp_def thinking_request_def js_simps)
  have c: "clientAuthorization [] = None" by (simp add: clientAuthorization_def)
  show ?thesis
    unfolding handleDirectMessages_def p c
    by (simp add: k[unfolded js_simps] demo_config_fields Let_def js_simps)
qed

theorem reasoning_injection_witness:
  "handleDirectMessages demo_host demo_config (Inl (Error [])) 0 [] thinking_request demo_pool =
     (Forward (js ''https://upstream.example/anthropic'')
        \<lparr> http_method = js ''POST'', headers = [(js ''authorization'', js ''Bearer fk-one'')],
          payload = JSON_stringify demo_host
            (JObj (messagesModifiedRequest demo_config (JStr (js ''claude'')) thinking_request)) \<rparr>,
      demo_pool)
   \<and> handleDirectResponses demo_host demo_config (Inl (Error [])) 0 [] small_budget_request demo_pool =
     (Forward (js ''https://upstream.example/openai'')
        \<lparr> http_method = js ''POST'', headers = [(js ''authorization'', js ''Bearer fk-one'')],
          payload = JSON_stringify demo_host
            (JObj (responsesModifiedRequest demo_host demo_config (JStr (js ''gpt'')) small_budget_request)) \<rparr>,
      demo_pool)
   \<and> map_of (messagesModifiedRequest demo_config (JStr (js ''claude'')) thinking_request) (js ''thinking'')
       = Some (JObj [(js ''type'', JStr (js ''enabled'')), (js ''budget_tokens'', JNum 24576)])
   \<and> map_of (responsesModifiedRequest demo_host demo_config (JStr (js ''gpt'')) small_budget_request)
         (js ''reasoning'')
       = Some (JObj [(js ''effort'', JStr (js ''high'')), (js ''summary'', JStr (js ''auto''))])"
proof -
  have g: "getRedirectedModelId demo_config (ownprop thinking_request (js ''model'')) = Some (JStr (js ''claude''))"
    by (simp add: thinking_request_def demo_config_fields js_simps)
  have g2: "getRedirectedModelId demo_config (ownprop small_budget_request (js ''model'')) = Some (JStr (js ''gpt''))"
    by (simp add: small_budget_request_def demo_config_fields js_simps)
  have l: "getModelReasoning demo_config (Some (JStr (js ''claude''))) = Some (JStr (js ''high''))"
    by (simp add: demo_config_fields js_simps)
  have l2: "getModelReasoning demo_config (Some (JStr (js ''gpt''))) = Some (JStr (js ''high''))"
    by (simp add: demo_config_fields js_simps)
  note th = reasoning_injection[where h = demo_host and cfg = demo_config and net = "Inl (Error [])"
      and now = 0 and hdrs = "[]" and req = thinking_request and s = demo_pool
      and ?h2.0 = demo_host and ?cfg2.0 = demo_config and ?net2.0 = "Inl (Error [])"
      and ?now2.0 = 0 and ?hdrs2.0 = "[]" and ?req2.0 = small_budget_request and ?s2.0 = demo_pool]
  from th demo_messages_handled
  have a: "map_of (messagesModifiedRequest demo_config (JStr (js ''claude'')) thinking_request) (js ''thinking'')
       = Some (JObj [(js ''type'', JStr (js ''enabled'')), (js ''budget_tokens'', JNum 24576)])"
    unfolding g by (simp add: Let_def l)
  from th demo_responses_handled
  have b: "map_of (responsesModifiedRequest demo_host demo_config (JStr (js ''gpt'')) small_budget_request)
         (js ''reasoning'')
       = Some (JObj [(js ''effort'', JStr (js ''high'')), (js ''summary'', JStr (js ''auto''))])"
    unfolding g2 by (simp add: Let_def l2)
  from a b demo_messages_handled demo_responses_handled show ?thesis by blast
qed

text \<open>
  C6, as amended. For an input that carries a truthy \<open>id\<close> and a truthy \<open>created_at\<close>,
  \<open>convertResponseToChatCompletion\<close> gives the same result (the same object, or the same
  failure) whatever the clock reads, so two calls on that input agree.
\<close>

theorem normalizer_clock_independent:
  assumes "truthy (ownprop resp (js ''id''))" and "truthy (ownprop resp (js ''created_at''))"
  shows "convertResponseToChatCompletion h clock1 resp = convertResponseToChatCompletion h clock2 resp"
  using assms
  by (simp add: convertResponseToChatCompletion_def js_or_def Let_def
      split: sum.splits option.splits json.splits)

lemma decimal_eval:
  "n < 10 \<Longrightarrow> decimal n = [48 + n]"
  "10 \<le> n \<Longrightarrow> decimal n = decimal (n div 10) @ [48 + n mod 10]"
  by (subst decimal.simps, simp)+

lemma decimal_1000: "decimal 1000 = js ''1000''"
  by (simp add: decimal_eval js_simps)

lemma decimal_2000: "decimal 2000 = js ''2000''"
  by (simp add: decimal_eval js_simps)

lemma bare_response_at:
  "convertResponseToChatCompletion demo_host clock bare_response =
     Inr (JObj [
        (js ''id'', JStr (js ''chatcmpl-'' @ decimal (clock 0))),
        (js ''object'', JStr (js ''chat.completion'')),
        (js ''created'', JNum (of_nat (clock 1 div 1000))),
        (js ''model'', JStr (js ''unknown-model'')),
        (js ''choices'', JArr [JObj [
           (js ''index'', JNum 0),
           (js ''message'', JObj [(js ''role'', JStr (js ''assistant'')), (js ''content'', JStr (js ''hi''))]),
           (js ''finish_reason'', JStr (js ''stop''))]]),
        (js ''usage'', JObj [(js ''prompt_tokens'', JNum 0), (js ''completion_tokens'', JNum 0),
           (js ''total_tokens'', JNum 0)])])"
  by (simp add: convertResponseToChatCompletion_def bare_response_def isObject_def getp_def
        getp_opt_def js_or_def js_coalesce_def nullish_def joinTexts_def Let_def js_simps)

text \<open>
  C6 as stated fails: an object without \<open>id\<close> passes the normalizer's check, and its
  identifier is made from the clock, so a call at 1000 ms and a call at 2000 ms differ.
\<close>

theorem normalizer_clock_counterexample:
  "convertResponseToChatCompletion demo_host clock_1s bare_response \<noteq>
   convertResponseToChatCompletion demo_host clock_2s bare_response"
  by (simp add: bare_response_at clock_1s_def clock_2s_def decimal_1000 decimal_2000 js_simps)

theorem normalizer_clock_independent_witness:
  "truthy (ownprop full_response (js ''id'')) \<and> truthy (ownprop full_response (js ''created_at''))
   \<and> convertResponseToChatCompletion demo_host clock_1s full_response
     = convertResponseToChatCompletion demo_host clock_2s full_response"
proof -
  have a: "truthy (ownprop full_response (js ''id''))"
    by (simp add: full_response_def js_simps)
  have b: "truthy (ownprop full_response (js ''created_at''))"
    by (simp add: full_response_def js_simps)
  from normalizer_clock_independent[OF a b] a b show ?thesis by blast
qed

section \<open>The streaming transformer\<close>

lemma js_split_nonempty [simp]: "js_split sep s \<noteq> []"
  by (induction s) (auto split: list.splits)

lemma js_split_no_sep: "sep \<notin> set s \<Longrightarrow> js_split sep s = [s]"
  by (induction s) auto

lemma last_js_split_no_sep: "sep \<notin> set (last (js_split sep s))"
  by (induction s) (auto split: list.splits)

lemma js_split_append:
  "js_split sep (a @ b) = butlast (js_split sep a) @ js_split sep (last (js_split sep a) @ b)"
proof (induction a)
  case Nil
  show ?case by simp
next
  case (Cons c a)
  show ?case
  proof (cases "c = sep")
    case True
    then show ?thesis using Cons by simp
  next
    case False
    obtain l ls where s: "js_split sep a = l # ls"
      by (cases "js_split sep a") auto
    show ?thesis
    proof (cases ls)
      case Nil
      with s False Cons show ?thesis by simp
    next
      case (Cons l' ls')
      obtain m ms where t: "js_split sep (a @ b) = m # ms"
        by (cases "js_split sep (a @ b)") auto
      from Cons s False Cons.IH t show ?thesis
        by (auto split: list.splits)
    qed
  qed
qed

lemma processLines_append:
  "processLines h clock st (xs @ ys) =
     (case processLines h clock st xs of Inl x \<Rightarrow> Inl x | Inr st1 \<Rightarrow> processLines h clock st1 ys)"
  by (induction xs arbitrary: st) (auto split: sum.splits)

lemma processChunks_lines:
  assumes "10 \<notin> set buffer"
  shows "processChunks h clock buffer st chunks = processLines h clock st (streamLines buffer chunks)"
  using assms
proof (induction chunks arbitrary: buffer st)
  case Nil
  then show ?case by (simp add: streamLines_def js_split_no_sep)
next
  case (Cons chunk chunks)
  let ?parts = "js_split 10 (buffer @ toString chunk)"
  have n: "10 \<notin> set (last ?parts)" by (rule last_js_split_no_sep)
  have sp: "streamLines buffer (chunk # chunks) = butlast ?parts @ streamLines (last ?parts) chunks"
    using js_split_append[of 10 "buffer @ toString chunk" "concat (map toString chunks)"]
    by (simp add: streamLines_def butlast_append)
  show ?case
    unfolding sp processLines_append
    by (simp add: Let_def Cons.IH[OF n] split: sum.splits)
qed









lemma transformStream_lines:
  "transformStream h clock tr chunks failure =
     (case processLines h clock \<lparr> currentEvent = None, xf = tr\<lparr> isDone := False \<rparr>, out = [] \<rparr>
             (streamLines [] chunks) of
        Inl (e, st) \<Rightarrow>
          \<lparr> emitted = out st @ (if \<not> isDone (xf st) then [createDoneSignal] else []),
            thrown = Some e, final = xf st \<rparr>
      | Inr st \<Rightarrow>
          (case failure of
             Some e \<Rightarrow> \<lparr> emitted = out st @ (if \<not> isDone (xf st) then [createDoneSignal] else []),
                         thrown = Some e, final = xf st \<rparr>
           | None \<Rightarrow>
               \<lparr> emitted = out st @ (if \<not> isDone (xf st)
                    then [createOpenAIChunk h (xf st) (JStr []) None True (Some (js ''stop'')),
                          createDoneSignal]
                    else []),
                 thrown = None, final = xf st \<rparr>))"
  by (simp add: transformStream_def Let_def processChunks_lines)




lemma utf8_decode_ascii: "\<forall>b \<in> set bs. b < 128 \<Longrightarrow> utf8_decode bs = bs"
  by (induction bs) simp_all

lemma toString_ascii:
  assumes "\<forall>c \<in> set chunk. (of_char c :: nat) < 128"
  shows "toString chunk = map of_char chunk"
proof -
  have "utf8_decode (map of_char chunk) = map of_char chunk"
    using assms by (intro utf8_decode_ascii) auto
  moreover have "concat (map utf16_encode (map of_char chunk)) = map of_char chunk"
    using assms by (induction chunk) (simp_all add: utf16_encode_def)
  ultimately show ?thesis by (simp add: toString_def)
qed

lemma transformStream_decoded:
  assumes "concat (map toString chunks) = concat (map toString chunks')"
  shows "transformStream h clock tr chunks failure = transformStream h clock tr chunks' failure"
  unfolding transformStream_lines streamLines_def using assms by simp












lemma parse_event_line:
  "parseSSELine h (js ''event: response.output_text.delta'') = Some (EventLine (js ''response.output_text.delta''))"
  by (simp add: parseSSELine_def startsWith_def trim_def isWhiteSpace_def js_simps)



lemma trim_lines:
  "trim (js ''event: response.output_text.delta'') \<noteq> []"
  "trim (js ''data: null'') \<noteq> []"
  "trim (js ''data: {\"delta\":\"hi\"}'') \<noteq> []"
  by (simp_all add: trim_def isWhiteSpace_def js_simps)



lemma text_delta_event: "js ''response.output_text.delta'' \<in> set textDeltaEvents"
  "js ''response.output_text.delta'' \<noteq> js ''response.created''"
  "js ''response.output_text.delta'' \<noteq> js ''response.in_progress''"
  "js ''response.output_text.delta'' \<notin> set completionEvents"
  "js ''response.output_text.delta'' \<noteq> []"
  by (simp_all add: textDeltaEvents_def completionEvents_def js_simps)






text \<open>
  What the transformer yields depends on the chunks through the concatenation of their
  decoded texts only; chunks of ASCII bytes give the same frames however the bytes are cut.
\<close>

lemma chunking_ascii:
  assumes "\<forall>c \<in> set (concat chunks). (of_char c :: nat) < 128"
  shows "transformStream h clock tr chunks failure = transformStream h clock tr [concat chunks] failure"
proof (rule transformStream_decoded)
  have each: "\<forall>chunk \<in> set chunks. toString chunk = map of_char chunk"
    using assms by (auto intro!: toString_ascii)
  have "concat (map toString chunks) = concat (map (map of_char) chunks)"
    using each by (induction chunks) simp_all
  also have "\<dots> = map of_char (concat chunks)" by (simp add: map_concat)
  also have "\<dots> = toString (concat chunks)" using assms by (simp add: toString_ascii)
  finally show "concat (map toString chunks) = concat (map toString [concat chunks])" by simp
qed

lemma whole_lines:
  "streamLines [] [accent_head @ accent_tail] =
     [js ''event: response.output_text.delta'', js ''data: {\"delta\":\"'' @ [0xE9] @ js ''\"}'']"
  by (simp add: streamLines_def accent_head_def accent_tail_def toString_def utf16_encode_def
      isContinuation_def js_simps)

lemma split_lines:
  "streamLines [] [accent_head, accent_tail] =
     [js ''event: response.output_text.delta'', js ''data: {\"delta\":\"'' @ [0xFFFD, 0xFFFD] @ js ''\"}'']"
  by (simp add: streamLines_def accent_head_def accent_tail_def toString_def utf16_encode_def
      isContinuation_def js_simps)

lemma parse_accent_lines:
  "parseSSELine stream_host (js ''data: {\"delta\":\"'' @ [0xE9] @ js ''\"}'')
     = Some (DataLine (JObj [(js ''delta'', JStr [0xE9])]))"
  "parseSSELine stream_host (js ''data: {\"delta\":\"'' @ [0xFFFD, 0xFFFD] @ js ''\"}'')
     = Some (DataLine (JObj [(js ''delta'', JStr [0xFFFD, 0xFFFD])]))"
  "trim (js ''data: {\"delta\":\"'' @ [0xE9] @ js ''\"}'') \<noteq> []"
  "trim (js ''data: {\"delta\":\"'' @ [0xFFFD, 0xFFFD] @ js ''\"}'') \<noteq> []"
  by (simp_all add: parseSSELine_def startsWith_def trim_def isWhiteSpace_def stream_host_def
      stream_payloads_def Let_def js_simps)

lemma text_delta_frame:
  assumes "text \<noteq> []" and "trim line \<noteq> []"
      and "parseSSELine h line = Some (DataLine (JObj [(js ''delta'', JStr text)]))"
  shows "processLines h demo_clock
           \<lparr> currentEvent = None, xf = demo_transformer\<lparr> isDone := False \<rparr>, out = [] \<rparr>
           [js ''event: response.output_text.delta'', line]
         = Inr \<lparr> currentEvent = None, xf = demo_transformer\<lparr> isDone := False \<rparr>,
                 out = [createOpenAIChunk h demo_transformer (JStr text) (Some (js ''assistant'')) False None] \<rparr>"
  using assms
  by (simp add: processLine_def parse_event_line trim_lines text_delta_event transformEvent_def
      getp_def js_or_def js_or_else_def Let_def createOpenAIChunk_def openAIChunk_def chunkHead_def)

text \<open>
  C4 fails on a chunk boundary inside a character. Each chunk is decoded on its own
  (\<open>chunk.toString()\<close>), so the two bytes of the accented letter, delivered in two chunks,
  become two U+FFFD, where the same bytes in one chunk give the letter: the frames differ.
\<close>

theorem chunk_split_inside_character:
  "emitted (transformStream stream_host demo_clock demo_transformer [accent_head @ accent_tail] None)
     = [createOpenAIChunk stream_host demo_transformer (JStr [0xE9]) (Some (js ''assistant'')) False None,
        sse stream_host (stopChunk demo_transformer), js ''data: [DONE]'' @ [10, 10]]
   \<and> emitted (transformStream stream_host demo_clock demo_transformer [accent_head, accent_tail] None)
     = [createOpenAIChunk stream_host demo_transformer (JStr [0xFFFD, 0xFFFD]) (Some (js ''assistant'')) False None,
        sse stream_host (stopChunk demo_transformer), js ''data: [DONE]'' @ [10, 10]]
   \<and> emitted (transformStream stream_host demo_clock demo_transformer [accent_head @ accent_tail] None)
     \<noteq> emitted (transformStream stream_host demo_clock demo_transformer [accent_head, accent_tail] None)"
proof -
  let ?st0 = "\<lparr> currentEvent = None, xf = demo_transformer\<lparr> isDone := False \<rparr>, out = [] \<rparr>"
  have d: "isDone (demo_transformer\<lparr> isDone := False \<rparr>) = False" by simp
  have w: "processLines stream_host demo_clock ?st0 (streamLines [] [accent_head @ accent_tail])
         = Inr (?st0\<lparr> out := [createOpenAIChunk stream_host demo_transformer (JStr [0xE9])
                                  (Some (js ''assistant'')) False None] \<rparr>)"
    unfolding whole_lines
    by (subst text_delta_frame[OF _ parse_accent_lines(3) parse_accent_lines(1)]) simp_all
  have s: "processLines stream_host demo_clock ?st0 (streamLines [] [accent_head, accent_tail])
         = Inr (?st0\<lparr> out := [createOpenAIChunk stream_host demo_transformer (JStr [0xFFFD, 0xFFFD])
                                  (Some (js ''assistant'')) False None] \<rparr>)"
    unfolding split_lines
    by (subst text_delta_frame[OF _ parse_accent_lines(4) parse_accent_lines(2)]) simp_all
  have e1: "emitted (transformStream stream_host demo_clock demo_transformer [accent_head @ accent_tail] None)
     = [createOpenAIChunk stream_host demo_transformer (JStr [0xE9]) (Some (js ''assistant'')) False None,
        sse stream_host (stopChunk demo_transformer), js ''data: [DONE]'' @ [10, 10]]"
    unfolding transformStream_lines w
    by (simp add: createOpenAIChunk_def openAIChunk_def stopChunk_def createDoneSignal_def chunkHead_def)
  have e2: "emitted (transformStream stream_host demo_clock demo_transformer [accent_head, accent_tail] None)
     = [createOpenAIChunk stream_host demo_transformer (JStr [0xFFFD, 0xFFFD]) (Some (js ''assistant'')) False None,
        sse stream_host (stopChunk demo_transformer), js ''data: [DONE]'' @ [10, 10]]"
    unfolding transformStream_lines s
    by (simp add: createOpenAIChunk_def openAIChunk_def stopChunk_def createDoneSignal_def chunkHead_def)
  have q: "demo_quote [0xE9] \<noteq> demo_quote [0xFFFD, 0xFFFD]" by (simp add: demo_quote_def)
  have ne: "createOpenAIChunk stream_host demo_transformer (JStr [0xE9]) (Some (js ''assistant'')) False None
        \<noteq> createOpenAIChunk stream_host demo_transformer (JStr [0xFFFD, 0xFFFD]) (Some (js ''assistant'')) False None"
    using q
    by (simp add: createOpenAIChunk_def openAIChunk_def sse_def stream_host_def demo_host_def chunkHead_def
        js_simps)
  show ?thesis unfolding e1 e2 using ne by simp
qed














end
